theory Spec2Isabelle
  imports Complex_Main
begin

section \<open>Python values\<close>

text \<open>
  The generator is one Python module, \<^verbatim>\<open>main.py\<close>. Its numbers are Python floats and
  ints. The first model reads a float as an exact real number: its statements are about
  the arithmetic the program writes down, without rounding error. Where an integer result
  depends on the rounding of a float operation (the number of samples of a note, the
  comparison that clips the last event), a second model, whose names end in \<open>64\<close>, rounds
  every float operation to binary64 as Python does. Exceptions are values of \<open>py_error\<close>; a
  function that can raise returns \<open>py_error + 'a\<close>.
\<close>

datatype py_error = KeyError | ValueError | IndexError | ZeroDivisionError

text \<open>\<^verbatim>\<open>int(x)\<close> on a float truncates towards zero.\<close>

definition py_int :: "real \<Rightarrow> int" where
  "py_int x = (if 0 \<le> x then \<lfloor>x\<rfloor> else \<lceil>x\<rceil>)"

section \<open>Note and chord definitions\<close>

definition NOTES :: "(string \<times> real) list" where
  "NOTES =
    [(''C3'', 130.81), (''D3'', 146.83), (''E3'', 164.81), (''F3'', 174.61),
     (''G3'', 196.00), (''A3'', 220.00), (''B3'', 246.94),
     (''C4'', 261.63), (''D4'', 293.66), (''Eb4'', 311.13), (''E4'', 329.63),
     (''F4'', 349.23), (''G4'', 392.00), (''Ab4'', 415.30), (''A4'', 440.00),
     (''B4'', 493.88),
     (''C5'', 523.25), (''D5'', 587.33), (''E5'', 659.25), (''G5'', 783.99)]"

definition REST :: string where
  "REST = ''REST''"

record mood =
  scale :: "string list"
  chords :: "string list list"
  bpm :: int

definition MOODS :: "(string \<times> mood) list" where
  "MOODS =
    [(''happy'',
        \<lparr>scale = [''C4'', ''D4'', ''E4'', ''F4'', ''G4'', ''A4'', ''B4'', ''C5''],
         chords = [[''C4'', ''E4'', ''G4''], [''G4'', ''B4'', ''D5''],
                   [''A4'', ''C5'', ''E5''], [''F4'', ''A4'', ''C5'']],
         bpm = 120\<rparr>),
     (''sad'',
        \<lparr>scale = [''C4'', ''Eb4'', ''F4'', ''G4'', ''Ab4'', ''C5''],
         chords = [[''C4'', ''Eb4'', ''G4''], [''Ab4'', ''C5'', ''Eb4''],
                   [''F3'', ''Ab3'', ''C4''], [''G3'', ''A3'', ''D4'']],
         bpm = 75\<rparr>),
     (''dreamy'',
        \<lparr>scale = [''C4'', ''E4'', ''G4'', ''A4'', ''C5'', ''E5'', ''G5''],
         chords = [[''C4'', ''E4'', ''G4'', ''B4''], [''A3'', ''C4'', ''E4'', ''G4'']],
         bpm = 60\<rparr>)]"

section \<open>Waveforms\<close>

text \<open>
  \<^verbatim>\<open>np.linspace(start, stop, num, endpoint)\<close>: \<open>num\<close> evenly spaced samples; a negative
  \<open>num\<close> raises ValueError. The step is \<open>(stop - start) / dv\<close> with \<open>dv = num - 1\<close>
  when the endpoint is included and \<open>dv = num\<close> otherwise; with \<open>dv \<le> 0\<close> there is at
  most the sample of index 0, which is \<open>start\<close>.
\<close>

definition linspace :: "real \<Rightarrow> real \<Rightarrow> int \<Rightarrow> bool \<Rightarrow> py_error + real list" where
  "linspace start stop num endpoint =
     (if num < 0 then Inl ValueError
      else
        let dv = (if endpoint then num - 1 else num)
        in Inr (map (\<lambda>i. if 0 < dv then start + real i * ((stop - start) / real_of_int dv)
                           else start + real i * (stop - start))
                    [0..<nat num]))"

text \<open>The instrument recipes of \<^verbatim>\<open>create_waveform\<close>, one sample at time \<open>t\<close>.\<close>

definition recipe :: "string \<Rightarrow> real \<Rightarrow> real \<Rightarrow> real" where
  "recipe instrument frequency t =
     (if instrument = ''piano'' then
        0.6 * sin (2 * pi * frequency * t)
        + 0.2 * sin (2 * pi * (frequency * 2) * t)
        + 0.1 * sin (2 * pi * (frequency * 3) * t)
      else if instrument = ''organ'' then
        0.5 * sin (2 * pi * (frequency * 0.5) * t)
        + 0.5 * sin (2 * pi * frequency * t)
        + 0.3 * sin (2 * pi * (frequency * 2) * t)
      else if instrument = ''retro_synth'' then
        sgn (sin (2 * pi * frequency * t))
      else
        0.6 * sin (2 * pi * frequency * t) + 0.2 * sin (2 * pi * (frequency * 2) * t))"

definition create_waveform :: "real \<Rightarrow> real \<Rightarrow> real \<Rightarrow> string \<Rightarrow> py_error + real list" where
  "create_waveform frequency dur sample_rate instrument =
     (case linspace 0 dur (py_int (sample_rate * dur)) False of
        Inl e \<Rightarrow> Inl e
      | Inr t \<Rightarrow>
          let data = map (recipe instrument frequency) t
          in (case linspace 0 (- 5) (int (length data)) True of
                Inl e \<Rightarrow> Inl e
              | Inr l \<Rightarrow> Inr (map2 (*) data (map exp l))))"

section \<open>The melody plan\<close>

record event =
  "note" :: string
  duration :: real

text \<open>
  \<^verbatim>\<open>random.choice(seq)\<close> raises IndexError on an empty sequence and otherwise returns
  the element at a random index. The random source is a stream \<open>rng\<close> of naturals; the
  \<open>k\<close>-th draw, reduced modulo the length, is the index, so every run of the program is
  the run of the model on some stream.
\<close>

definition choice :: "'a list \<Rightarrow> nat \<Rightarrow> py_error + 'a" where
  "choice seq r = (if seq = [] then Inl IndexError else Inr (seq ! (r mod length seq)))"

text \<open>
  The \<^verbatim>\<open>while current_time < total_duration_seconds\<close> loop. It need not end (a negative
  tempo makes every rhythm negative), so the result is an option: \<open>None\<close> is a run that
  never leaves the loop.
\<close>

partial_function (option) plan_loop ::
  "real list \<Rightarrow> string list \<Rightarrow> real \<Rightarrow> (nat \<Rightarrow> nat) \<Rightarrow> nat \<Rightarrow> real \<Rightarrow> event list
     \<Rightarrow> (py_error + event list) option" where
  "plan_loop rhythms scl total_duration_seconds rng k current_time melody_sequence =
     (if current_time < total_duration_seconds then
        (case choice rhythms (rng k) of
           Inl e \<Rightarrow> Some (Inl e)
         | Inr d0 \<Rightarrow>
             (let dur = (if current_time + d0 > total_duration_seconds
                         then total_duration_seconds - current_time else d0)
              in (case choice scl (rng (k + 1)) of
                    Inl e \<Rightarrow> Some (Inl e)
                  | Inr melody_note \<Rightarrow>
                      plan_loop rhythms scl total_duration_seconds rng (k + 2)
                        (current_time + dur)
                        (melody_sequence @ [\<lparr>note = melody_note, duration = dur\<rparr>]))))
      else Some (Inr melody_sequence))"

text \<open>The set-up of the plan: \<^verbatim>\<open>60 / bpm\<close> raises ZeroDivisionError at tempo 0.\<close>

definition quarter_note_duration :: "mood \<Rightarrow> real" where
  "quarter_note_duration m = 60 / real_of_int (bpm m)"

definition plan_melody :: "mood \<Rightarrow> real \<Rightarrow> (nat \<Rightarrow> nat) \<Rightarrow> (py_error + event list) option" where
  "plan_melody m total_duration_seconds rng =
     (if bpm m = 0 then Some (Inl ZeroDivisionError)
      else
        let q = quarter_note_duration m;
            rhythms = [q, q / 2, q * 1.5]
        in plan_loop rhythms (scale m @ [REST]) total_duration_seconds rng 0 0 [])"

section \<open>Mixing\<close>

text \<open>
  \<^verbatim>\<open>buf[a:b] += w\<close> on a one-dimensional array. A negative bound counts from the end and
  both bounds are clamped to the array. The right-hand side must have the length of the
  slice, or length 1 (it is then broadcast); any other length raises ValueError.
\<close>

definition slice_index :: "nat \<Rightarrow> int \<Rightarrow> nat" where
  "slice_index n i = (if i < 0 then nat (max 0 (int n + i)) else min n (nat i))"

definition slice_iadd :: "real list \<Rightarrow> int \<Rightarrow> int \<Rightarrow> real list \<Rightarrow> py_error + real list" where
  "slice_iadd buf a b w =
     (let lo = slice_index (length buf) a;
          hi = slice_index (length buf) b;
          sl = hi - lo
      in if length w = sl then
           Inr (map (\<lambda>k. if lo \<le> k \<and> k < lo + sl then buf ! k + w ! (k - lo) else buf ! k)
                    [0..<length buf])
         else if length w = 1 then
           Inr (map (\<lambda>k. if lo \<le> k \<and> k < lo + sl then buf ! k + w ! 0 else buf ! k)
                    [0..<length buf])
         else Inl ValueError)"

record mix_state =
  final_track_data :: "real list"
  current_pos_samples :: int
  chord_index :: nat

text \<open>The melody voice of one event: skipped for a rest, KeyError for an unknown note.\<close>

definition add_melody ::
  "string \<Rightarrow> real \<Rightarrow> event \<Rightarrow> int \<Rightarrow> int \<Rightarrow> real list \<Rightarrow> py_error + real list" where
  "add_melody instrument sample_rate item p duration_samples buf =
     (if note item \<noteq> REST then
        (case map_of NOTES (note item) of
           None \<Rightarrow> Inl KeyError
         | Some freq \<Rightarrow>
             (case create_waveform freq (duration item) sample_rate instrument of
                Inl e \<Rightarrow> Inl e
              | Inr mel_wave \<Rightarrow>
                  slice_iadd buf p (p + duration_samples) (map (\<lambda>x. x * 0.45) mel_wave)))
      else Inr buf)"

text \<open>The harmony voices: the inner \<^verbatim>\<open>for note_name in current_chord_notes\<close> loop.\<close>

fun add_harmony ::
  "real \<Rightarrow> event \<Rightarrow> int \<Rightarrow> int \<Rightarrow> string list \<Rightarrow> real list \<Rightarrow> py_error + real list" where
  "add_harmony sample_rate item p duration_samples [] buf = Inr buf"
| "add_harmony sample_rate item p duration_samples (note_name # rest) buf =
     (case map_of NOTES note_name of
        None \<Rightarrow> add_harmony sample_rate item p duration_samples rest buf
      | Some freq \<Rightarrow>
          (case create_waveform freq (duration item) sample_rate ''organ'' of
             Inl e \<Rightarrow> Inl e
           | Inr chord_wave \<Rightarrow>
               (case slice_iadd buf p (p + duration_samples) (map (\<lambda>x. x * 0.20) chord_wave) of
                  Inl e \<Rightarrow> Inl e
                | Inr buf' \<Rightarrow> add_harmony sample_rate item p duration_samples rest buf')))"

text \<open>
  One pass of the \<^verbatim>\<open>for item in melody_sequence\<close> loop. \<^verbatim>\<open>chords[chord_index]\<close> raises
  IndexError when the progression is empty, and \<^verbatim>\<open>%\<close> raises ZeroDivisionError when the
  bar has no samples.
\<close>

definition render_item ::
  "mood \<Rightarrow> string \<Rightarrow> real \<Rightarrow> event \<Rightarrow> mix_state \<Rightarrow> py_error + mix_state" where
  "render_item m instrument sample_rate item st =
     (let duration_samples = py_int (duration item * sample_rate);
          p = current_pos_samples st
      in case add_melody instrument sample_rate item p duration_samples (final_track_data st) of
           Inl e \<Rightarrow> Inl e
         | Inr buf1 \<Rightarrow>
             if length (chords m) \<le> chord_index st then Inl IndexError
             else
               (case add_harmony sample_rate item p duration_samples
                       (chords m ! chord_index st) buf1 of
                  Inl e \<Rightarrow> Inl e
                | Inr buf2 \<Rightarrow>
                    let p' = p + duration_samples;
                        bar = py_int ((quarter_note_duration m * 4) * sample_rate)
                    in if bar = 0 then Inl ZeroDivisionError
                       else Inr \<lparr>final_track_data = buf2,
                                 current_pos_samples = p',
                                 chord_index =
                                   (if p' mod bar < duration_samples
                                    then (chord_index st + 1) mod length (chords m)
                                    else chord_index st)\<rparr>))"

fun render_loop ::
  "mood \<Rightarrow> string \<Rightarrow> real \<Rightarrow> event list \<Rightarrow> mix_state \<Rightarrow> py_error + mix_state" where
  "render_loop m instrument sample_rate [] st = Inr st"
| "render_loop m instrument sample_rate (item # items) st =
     (case render_item m instrument sample_rate item st of
        Inl e \<Rightarrow> Inl e
      | Inr st' \<Rightarrow> render_loop m instrument sample_rate items st')"

text \<open>\<^verbatim>\<open>np.max\<close> raises ValueError on an empty array.\<close>

definition np_max :: "real list \<Rightarrow> py_error + real" where
  "np_max xs = (case xs of [] \<Rightarrow> Inl ValueError | x # ys \<Rightarrow> Inr (fold max ys x))"

definition normalize :: "real list \<Rightarrow> py_error + real list" where
  "normalize buf =
     (case np_max (map abs buf) of
        Inl e \<Rightarrow> Inl e
      | Inr max_amp \<Rightarrow>
          if max_amp > 0 then Inr (map (\<lambda>x. x / max_amp) buf) else Inr buf)"

text \<open>\<^verbatim>\<open>np.zeros(n)\<close> raises ValueError for a negative \<open>n\<close>.\<close>

definition np_zeros :: "int \<Rightarrow> py_error + real list" where
  "np_zeros n = (if n < 0 then Inl ValueError else Inr (replicate (nat n) 0))"

text \<open>
  \<^verbatim>\<open>generate_music\<close> up to the normalised buffer, at sample rate \<open>sample_rate\<close> (44100 in
  the program). \<open>None\<close>: the planning loop never ends.
\<close>

definition render ::
  "mood \<Rightarrow> string \<Rightarrow> real \<Rightarrow> real \<Rightarrow> event list \<Rightarrow> py_error + real list" where
  "render m instrument sample_rate total_duration_seconds melody_sequence =
     (case np_zeros (py_int (sample_rate * total_duration_seconds)) of
        Inl e \<Rightarrow> Inl e
      | Inr zeros \<Rightarrow>
          (case render_loop m instrument sample_rate melody_sequence
                  \<lparr>final_track_data = zeros, current_pos_samples = 0, chord_index = 0\<rparr> of
             Inl e \<Rightarrow> Inl e
           | Inr st \<Rightarrow> normalize (final_track_data st)))"

definition generate_music ::
  "string \<Rightarrow> string \<Rightarrow> real \<Rightarrow> (nat \<Rightarrow> nat) \<Rightarrow> (py_error + real list) option" where
  "generate_music mood_key instrument total_duration_seconds rng =
     (case map_of MOODS mood_key of
        None \<Rightarrow> Some (Inl KeyError)
      | Some m \<Rightarrow>
          (case plan_melody m total_duration_seconds rng of
             None \<Rightarrow> None
           | Some (Inl e) \<Rightarrow> Some (Inl e)
           | Some (Inr melody_sequence) \<Rightarrow>
               Some (render m instrument 44100 total_duration_seconds melody_sequence)))"

section \<open>Binary64 arithmetic\<close>

text \<open>
  A Python float is a binary64 number, and every float operation returns the exact result
  rounded to the nearest binary64 number, ties to the even significand. \<open>rne\<close> rounds a
  real to the nearest integer, ties to even. \<open>expo n x\<close> is the binary exponent \<open>e\<close> of
  \<open>x > 0\<close>, with \<open>2 ^ e \<le> x < 2 ^ (e + 1)\<close>, found in at most \<open>n\<close> halvings or doublings. \<open>fl x\<close>
  keeps 53 significant bits of \<open>x\<close>. Overflow and subnormal numbers are left out: the
  model is binary64 for magnitudes from 2 to the power -1022 up to 2 to the power 1024, which covers every
  number of the runs considered here.
\<close>

definition rne :: "real \<Rightarrow> int" where
  "rne x = (let f = \<lfloor>x\<rfloor>; r = x - of_int f
            in if r < 1 / 2 then f else if 1 / 2 < r then f + 1
               else if even f then f else f + 1)"

fun expo :: "nat \<Rightarrow> real \<Rightarrow> int" where
  "expo 0 x = 0"
| "expo (Suc n) x =
     (if 2 \<le> x then expo n (x / 2) + 1 else if x < 1 then expo n (x * 2) - 1 else 0)"

definition fl :: "real \<Rightarrow> real" where
  "fl x = (if x = 0 then 0
           else let e = expo 1100 \<bar>x\<bar>
                in if 52 \<le> e
                   then sgn x * (of_int (rne (\<bar>x\<bar> / 2 ^ nat (e - 52))) * 2 ^ nat (e - 52))
                   else sgn x * (of_int (rne (\<bar>x\<bar> * 2 ^ nat (52 - e))) / 2 ^ nat (52 - e)))"

text \<open>
  \<^verbatim>\<open>create_waveform\<close> with the number of samples as Python computes it,
  \<^verbatim>\<open>int(sample_rate * duration)\<close> on the rounded product. The sample values themselves are
  left exact: the statements about this function are about its length only.
\<close>

definition create_waveform64 :: "real \<Rightarrow> real \<Rightarrow> real \<Rightarrow> string \<Rightarrow> py_error + real list" where
  "create_waveform64 frequency dur sample_rate instrument =
     (case linspace 0 dur (py_int (fl (sample_rate * dur))) False of
        Inl e \<Rightarrow> Inl e
      | Inr t \<Rightarrow>
          let data = map (recipe instrument frequency) t
          in (case linspace 0 (- 5) (int (length data)) True of
                Inl e \<Rightarrow> Inl e
              | Inr l \<Rightarrow> Inr (map2 (*) data (map exp l))))"

text \<open>
  The planning loop in binary64: the sum \<^verbatim>\<open>current_time + duration\<close>, the remainder
  \<^verbatim>\<open>total_duration_seconds - current_time\<close> and the quotient and products of the rhythms
  are rounded. The total duration is the float the caller passes.
\<close>

partial_function (option) plan_loop64 ::
  "real list \<Rightarrow> string list \<Rightarrow> real \<Rightarrow> (nat \<Rightarrow> nat) \<Rightarrow> nat \<Rightarrow> real \<Rightarrow> event list
     \<Rightarrow> (py_error + event list) option" where
  "plan_loop64 rhythms scl total_duration_seconds rng k current_time melody_sequence =
     (if current_time < total_duration_seconds then
        (case choice rhythms (rng k) of
           Inl e \<Rightarrow> Some (Inl e)
         | Inr d0 \<Rightarrow>
             (let dur = (if fl (current_time + d0) > total_duration_seconds
                         then fl (total_duration_seconds - current_time) else d0)
              in (case choice scl (rng (k + 1)) of
                    Inl e \<Rightarrow> Some (Inl e)
                  | Inr melody_note \<Rightarrow>
                      plan_loop64 rhythms scl total_duration_seconds rng (k + 2)
                        (fl (current_time + dur))
                        (melody_sequence @ [\<lparr>note = melody_note, duration = dur\<rparr>]))))
      else Some (Inr melody_sequence))"

definition quarter_note_duration64 :: "mood \<Rightarrow> real" where
  "quarter_note_duration64 m = fl (60 / real_of_int (bpm m))"

definition plan_melody64 :: "mood \<Rightarrow> real \<Rightarrow> (nat \<Rightarrow> nat) \<Rightarrow> (py_error + event list) option" where
  "plan_melody64 m total_duration_seconds rng =
     (if bpm m = 0 then Some (Inl ZeroDivisionError)
      else
        let q = quarter_note_duration64 m;
            rhythms = [q, fl (q / 2), fl (q * 1.5)]
        in plan_loop64 rhythms (scale m @ [REST]) total_duration_seconds rng 0 0 [])"

text \<open>
  The mixing loop in binary64: the sample counts \<^verbatim>\<open>int(item["duration"] * sample_rate)\<close>,
  the bar length and the buffer length are truncations of rounded products; cursor and
  chord index are Python ints and stay exact.
\<close>

definition add_melody64 ::
  "string \<Rightarrow> real \<Rightarrow> event \<Rightarrow> int \<Rightarrow> int \<Rightarrow> real list \<Rightarrow> py_error + real list" where
  "add_melody64 instrument sample_rate item p duration_samples buf =
     (if note item \<noteq> REST then
        (case map_of NOTES (note item) of
           None \<Rightarrow> Inl KeyError
         | Some freq \<Rightarrow>
             (case create_waveform64 freq (duration item) sample_rate instrument of
                Inl e \<Rightarrow> Inl e
              | Inr mel_wave \<Rightarrow>
                  slice_iadd buf p (p + duration_samples) (map (\<lambda>x. x * 0.45) mel_wave)))
      else Inr buf)"

fun add_harmony64 ::
  "real \<Rightarrow> event \<Rightarrow> int \<Rightarrow> int \<Rightarrow> string list \<Rightarrow> real list \<Rightarrow> py_error + real list" where
  "add_harmony64 sample_rate item p duration_samples [] buf = Inr buf"
| "add_harmony64 sample_rate item p duration_samples (note_name # rest) buf =
     (case map_of NOTES note_name of
        None \<Rightarrow> add_harmony64 sample_rate item p duration_samples rest buf
      | Some freq \<Rightarrow>
          (case create_waveform64 freq (duration item) sample_rate ''organ'' of
             Inl e \<Rightarrow> Inl e
           | Inr chord_wave \<Rightarrow>
               (case slice_iadd buf p (p + duration_samples) (map (\<lambda>x. x * 0.20) chord_wave) of
                  Inl e \<Rightarrow> Inl e
                | Inr buf' \<Rightarrow> add_harmony64 sample_rate item p duration_samples rest buf')))"

definition render_item64 ::
  "mood \<Rightarrow> string \<Rightarrow> real \<Rightarrow> event \<Rightarrow> mix_state \<Rightarrow> py_error + mix_state" where
  "render_item64 m instrument sample_rate item st =
     (let duration_samples = py_int (fl (duration item * sample_rate));
          p = current_pos_samples st
      in case add_melody64 instrument sample_rate item p duration_samples (final_track_data st) of
           Inl e \<Rightarrow> Inl e
         | Inr buf1 \<Rightarrow>
             if length (chords m) \<le> chord_index st then Inl IndexError
             else
               (case add_harmony64 sample_rate item p duration_samples
                       (chords m ! chord_index st) buf1 of
                  Inl e \<Rightarrow> Inl e
                | Inr buf2 \<Rightarrow>
                    let p' = p + duration_samples;
                        bar = py_int (fl (fl (quarter_note_duration64 m * 4) * sample_rate))
                    in if bar = 0 then Inl ZeroDivisionError
                       else Inr \<lparr>final_track_data = buf2,
                                 current_pos_samples = p',
                                 chord_index =
                                   (if p' mod bar < duration_samples
                                    then (chord_index st + 1) mod length (chords m)
                                    else chord_index st)\<rparr>))"

fun render_loop64 ::
  "mood \<Rightarrow> string \<Rightarrow> real \<Rightarrow> event list \<Rightarrow> mix_state \<Rightarrow> py_error + mix_state" where
  "render_loop64 m instrument sample_rate [] st = Inr st"
| "render_loop64 m instrument sample_rate (item # items) st =
     (case render_item64 m instrument sample_rate item st of
        Inl e \<Rightarrow> Inl e
      | Inr st' \<Rightarrow> render_loop64 m instrument sample_rate items st')"

definition render64 ::
  "mood \<Rightarrow> string \<Rightarrow> real \<Rightarrow> real \<Rightarrow> event list \<Rightarrow> py_error + real list" where
  "render64 m instrument sample_rate total_duration_seconds melody_sequence =
     (case np_zeros (py_int (fl (sample_rate * total_duration_seconds))) of
        Inl e \<Rightarrow> Inl e
      | Inr zeros \<Rightarrow>
          (case render_loop64 m instrument sample_rate melody_sequence
                  \<lparr>final_track_data = zeros, current_pos_samples = 0, chord_index = 0\<rparr> of
             Inl e \<Rightarrow> Inl e
           | Inr st \<Rightarrow> normalize (final_track_data st)))"

definition generate_music64 ::
  "string \<Rightarrow> string \<Rightarrow> real \<Rightarrow> (nat \<Rightarrow> nat) \<Rightarrow> (py_error + real list) option" where
  "generate_music64 mood_key instrument total_duration_seconds rng =
     (case map_of MOODS mood_key of
        None \<Rightarrow> Some (Inl KeyError)
      | Some m \<Rightarrow>
          (case plan_melody64 m total_duration_seconds rng of
             None \<Rightarrow> None
           | Some (Inl e) \<Rightarrow> Some (Inl e)
           | Some (Inr melody_sequence) \<Rightarrow>
               Some (render64 m instrument 44100 total_duration_seconds melody_sequence)))"

section \<open>The synthesizer: length of the buffer\<close>

lemma linspace_Inr:
  "0 \<le> num \<Longrightarrow> \<exists>xs. linspace a b num e = Inr xs \<and> length xs = nat num"
  by (simp add: linspace_def Let_def)

lemma linspace_Inl: "num < 0 \<Longrightarrow> linspace a b num e = Inl ValueError"
  by (simp add: linspace_def)

lemma create_waveform_Inr:
  assumes "0 \<le> py_int (sample_rate * dur)"
  shows "\<exists>w. create_waveform frequency dur sample_rate instrument = Inr w
            \<and> length w = nat (py_int (sample_rate * dur))"
proof -
  obtain t where t: "linspace 0 dur (py_int (sample_rate * dur)) False = Inr t"
    "length t = nat (py_int (sample_rate * dur))"
    using linspace_Inr [OF assms] by blast
  obtain l where l: "linspace 0 (- 5) (int (length t)) True = Inr l" "length l = length t"
    using linspace_Inr [of "int (length t)" 0 "- 5" True] by auto
  show ?thesis using t l by (simp add: create_waveform_def)
qed

lemma create_waveform_Inl:
  "py_int (sample_rate * dur) < 0
     \<Longrightarrow> create_waveform frequency dur sample_rate instrument = Inl ValueError"
  by (simp add: create_waveform_def linspace_Inl)

section \<open>The synthesizer: sample values\<close>

lemma linspace_nth:
  assumes "linspace a b num e = Inr xs" "k < length xs"
  shows "xs ! k = (if 0 < (if e then num - 1 else num)
                   then a + real k * ((b - a) / real_of_int (if e then num - 1 else num))
                   else a + real k * (b - a))"
  using assms by (auto simp: linspace_def Let_def split: if_splits)

lemma envelope_range:
  assumes "linspace 0 (- 5) (int n) True = Inr l" "k < length l"
  shows "- 5 \<le> l ! k \<and> l ! k \<le> 0"
proof -
  have len: "length l = n" using assms(1) by (auto simp: linspace_def Let_def split: if_splits)
  show ?thesis
  proof (cases "0 < int n - 1")
    case True
    then have v: "l ! k = real k * (- 5 / real_of_int (int n - 1))"
      using linspace_nth [OF assms] by simp
    have kn: "real k \<le> real_of_int (int n - 1)" using assms(2) len by simp
    have pos: "0 < real_of_int (int n - 1)" using True by simp
    have "real k / real_of_int (int n - 1) \<le> 1" using kn pos by simp
    moreover have "0 \<le> real k / real_of_int (int n - 1)" using pos by simp
    moreover have "l ! k = - 5 * (real k / real_of_int (int n - 1))" using v by simp
    ultimately show ?thesis by linarith
  next
    case False
    then have "k = 0" using assms(2) len by simp
    then show ?thesis using linspace_nth [OF assms] False by simp
  qed
qed

lemma create_waveform_nth:
  assumes "create_waveform f d r i = Inr w" "k < length w"
  shows "\<exists>t e. - 5 \<le> e \<and> e \<le> 0 \<and> w ! k = recipe i f t * exp e"
proof -
  from assms(1) obtain t l where t: "linspace 0 d (py_int (r * d)) False = Inr t"
    and l: "linspace 0 (- 5) (int (length t)) True = Inr l"
    and w: "w = map2 (*) (map (recipe i f) t) (map exp l)"
    by (auto simp: create_waveform_def Let_def split: sum.splits)
  have kl: "k < length l" "k < length t" using assms(2) w by simp_all
  have "w ! k = recipe i f (t ! k) * exp (l ! k)" using w kl by simp
  with envelope_range [OF l kl(1)] show ?thesis by blast
qed

text \<open>
  C6, as the spec states it, is false: the square wave is multiplied by the decay envelope
  before it is returned. With \<open>f = 1\<close>, \<open>d = 1/2\<close> and \<open>r = 4\<close> the second sample is
  \<open>sign (sin (\<pi>/2)) \<cdot> exp (-5) = exp (-5)\<close>, which is none of \<open>-1\<close>, \<open>0\<close>, \<open>1\<close>.
\<close>

theorem retro_synth_counterexample:
  "create_waveform 1 (1 / 2) 4 ''retro_synth'' = Inr [0, exp (- 5)]
   \<and> exp (- 5 :: real) \<notin> {- 1, 0, 1}"
proof -
  have "exp (- 5 :: real) \<noteq> - 1" using exp_gt_zero [of "- 5 :: real"] by linarith
  then show ?thesis
    by (simp add: create_waveform_def linspace_def py_int_def recipe_def Let_def upt_rec)
qed

text \<open>
  C6, amended: every sample of the buffer returned for \<open>retro_synth\<close> is a value \<open>s\<close> of
  \<open>{-1, 0, 1}\<close> (the square wave) multiplied by the envelope factor \<open>exp e\<close> with
  \<open>-5 \<le> e \<le> 0\<close>.
\<close>

theorem retro_synth_samples:
  assumes "create_waveform f d r ''retro_synth'' = Inr w" "k < length w"
  shows "\<exists>s e. s \<in> {- 1, 0, 1} \<and> - 5 \<le> e \<and> e \<le> 0 \<and> w ! k = s * exp e"
proof -
  from create_waveform_nth [OF assms] obtain t e where
    e: "- 5 \<le> e" "e \<le> 0" and wk: "w ! k = recipe ''retro_synth'' f t * exp e" by blast
  have "recipe ''retro_synth'' f t = sgn (sin (2 * pi * f * t))" by (simp add: recipe_def)
  moreover have "sgn (sin (2 * pi * f * t)) \<in> {- 1, 0, 1}" by (simp add: sgn_if)
  ultimately show ?thesis using e wk by auto
qed

theorem retro_synth_samples_witness:
  "create_waveform 1 (1 / 2) 4 ''retro_synth'' = Inr [0, exp (- 5)] \<and> (1::nat) < length [0, exp (- 5 :: real)]
   \<and> (\<exists>s e. s \<in> {- 1, 0, 1} \<and> - 5 \<le> e \<and> e \<le> 0 \<and> [0, exp (- 5 :: real)] ! 1 = s * exp e)"
proof -
  have c: "create_waveform 1 (1 / 2) 4 ''retro_synth'' = Inr [0, exp (- 5)]"
    by (simp add: create_waveform_def linspace_def py_int_def recipe_def Let_def upt_rec)
  have k: "(1::nat) < length [0, exp (- 5 :: real)]" by simp
  from retro_synth_samples [OF c k] c k show ?thesis by blast
qed

lemma recipe_zero: "recipe i 0 t = 0"
  by (simp add: recipe_def)

text \<open>
  C5, as the spec states it, is false twice. A negative frequency is synthesized like any
  other (\<open>sin\<close> is odd): \<open>f = -1\<close>, \<open>d = 1/2\<close>, \<open>r = 4\<close> gives the sample \<open>- exp (-5)\<close>. A
  negative duration makes the number of samples negative, and \<^verbatim>\<open>np.linspace\<close> raises
  ValueError.
\<close>

theorem degenerate_counterexample:
  "create_waveform (- 1) (1 / 2) 4 ''retro_synth'' = Inr [0, - exp (- 5)]
   \<and> - exp (- 5 :: real) \<noteq> 0
   \<and> create_waveform 440 (- 1) 44100 ''piano'' = Inl ValueError"
  by (simp add: create_waveform_def linspace_def py_int_def recipe_def Let_def upt_rec)

text \<open>
  C5, amended: for frequency \<open>0\<close> (with duration and sample rate not negative) and for
  duration \<open>0\<close>, the synthesizer raises nothing and returns silence, for every instrument: an
  all-zero buffer, which is empty when the duration is \<open>0\<close>.
\<close>

theorem degenerate_silence:
  assumes "(f = 0 \<and> 0 \<le> d \<and> 0 \<le> r) \<or> d = 0"
  shows "\<exists>w. create_waveform f d r i = Inr w \<and> (\<forall>x\<in>set w. x = 0) \<and> (d = 0 \<longrightarrow> w = [])"
proof -
  have nn: "0 \<le> py_int (r * d)" using assms by (auto simp: py_int_def)
  from create_waveform_Inr [OF nn, of f i] obtain w where
    w: "create_waveform f d r i = Inr w" "length w = nat (py_int (r * d))" by blast
  have z: "\<forall>x\<in>set w. x = 0"
  proof (cases "d = 0")
    case True
    then show ?thesis using w by (simp add: py_int_def)
  next
    case False
    then have f0: "f = 0" using assms by simp
    show ?thesis
    proof
      fix x assume "x \<in> set w"
      then obtain k where k: "k < length w" "w ! k = x" by (auto simp: in_set_conv_nth)
      from create_waveform_nth [OF w(1) k(1)] k(2) f0 show "x = 0" by (auto simp: recipe_zero)
    qed
  qed
  have "d = 0 \<longrightarrow> w = []" using w by (auto simp: py_int_def)
  with w z show ?thesis by blast
qed

theorem degenerate_silence_witness:
  "(((0::real) = 0 \<and> (0::real) \<le> 1 \<and> (0::real) \<le> 2) \<or> (1::real) = 0)
   \<and> (\<exists>w. create_waveform 0 1 2 ''kazoo'' = Inr w \<and> (\<forall>x\<in>set w. x = 0))"
  using degenerate_silence [of 0 1 2 "''kazoo''"] by simp

section \<open>Normalisation\<close>

lemma np_max_Max: "xs \<noteq> [] \<Longrightarrow> np_max xs = Inr (Max (set xs))"
proof (cases xs)
  case Nil
  assume "xs \<noteq> []"
  with Nil show ?thesis by simp
next
  case (Cons a list)
  have "fold max list a = Max (set (a # list))" by (rule Max.set_eq_fold [symmetric])
  then show ?thesis using Cons by (simp add: np_max_def)
qed

text \<open>
  C3: the normalisation step returns for every buffer that is not empty, and whenever it
  returns, either the buffer was all zero and is unchanged, or every sample was divided by
  the peak, which is not zero, and the peak of the result is exactly \<open>1\<close>.
\<close>

theorem normalize_peak:
  "(buf \<noteq> [] \<longrightarrow> (\<exists>out. normalize buf = Inr out))
   \<and> (\<forall>out. normalize buf = Inr out \<longrightarrow>
         ((\<forall>x\<in>set buf. x = 0) \<and> out = buf)
         \<or> (np_max (map abs out) = Inr 1
            \<and> (\<exists>peak. 0 < peak \<and> np_max (map abs buf) = Inr peak \<and> out = map (\<lambda>x. x / peak) buf)))"
proof (intro conjI allI impI)
  assume "buf \<noteq> []"
  then show "\<exists>out. normalize buf = Inr out"
    by (simp add: normalize_def np_max_Max)
next
  fix out assume n: "normalize buf = Inr out"
  have ne: "buf \<noteq> []" using n by (auto simp: normalize_def np_max_def)
  define M where "M = Max (set (map abs buf))"
  have mx: "np_max (map abs buf) = Inr M" using ne by (simp add: np_max_Max M_def)
  show "((\<forall>x\<in>set buf. x = 0) \<and> out = buf)
         \<or> (np_max (map abs out) = Inr 1
            \<and> (\<exists>peak. 0 < peak \<and> np_max (map abs buf) = Inr peak \<and> out = map (\<lambda>x. x / peak) buf))"
  proof (cases "0 < M")
    case True
    then have out: "out = map (\<lambda>x. x / M) buf" using n mx by (simp add: normalize_def)
    have mono: "mono (\<lambda>y::real. y / M)" using True by (simp add: mono_def divide_right_mono)
    have "map abs out = map (\<lambda>y. y / M) (map abs buf)" using out True by simp
    then have "set (map abs out) = (\<lambda>y. y / M) ` set (map abs buf)" by (metis set_map)
    then have "Max (set (map abs out)) = M / M"
      using mono_Max_commute [OF mono, of "set (map abs buf)"] ne M_def by simp
    then have "np_max (map abs out) = Inr 1" using True ne out by (simp add: np_max_Max)
    then show ?thesis using True mx out by blast
  next
    case False
    then have out: "out = buf" using n mx by (simp add: normalize_def)
    have "\<forall>x\<in>set buf. x = 0"
    proof
      fix x assume "x \<in> set buf"
      then have "\<bar>x\<bar> \<le> M" unfolding M_def by (intro Max_ge) auto
      then show "x = 0" using False by simp
    qed
    then show ?thesis using out by blast
  qed
qed

theorem normalize_peak_witness:
  "normalize [1 / 2, - 2, 1] = Inr [1 / 4, - 1, 1 / 2]
   \<and> np_max (map abs [1 / 4, - 1, 1 / 2]) = Inr 1"
proof -
  have n: "normalize [1 / 2, - 2, 1] = Inr [1 / 4, - 1, 1 / 2]"
    by (simp add: normalize_def np_max_def)
  have nz: "\<not> (\<forall>x\<in>set [1 / 2, - 2, 1 :: real]. x = 0)" by simp
  from normalize_peak [of "[1 / 2, - 2, 1]"] n nz
  have "np_max (map abs [1 / 4, - 1, 1 / 2]) = Inr 1" by blast
  with n show ?thesis by blast
qed

section \<open>The melody plan: termination and durations\<close>

lemma choice_Inr:
  "seq \<noteq> [] \<Longrightarrow> \<exists>x. choice seq r = Inr x \<and> x \<in> set seq"
  by (simp add: choice_def)

lemma plan_loop_done:
  "\<not> current_time < tds \<Longrightarrow> plan_loop rhythms scl tds rng k current_time acc = Some (Inr acc)"
  by (subst plan_loop.simps) simp

lemma plan_loop_step:
  assumes "current_time < tds" "choice rhythms (rng k) = Inr d0"
    "choice scl (rng (k + 1)) = Inr nt"
  shows "plan_loop rhythms scl tds rng k current_time acc =
         plan_loop rhythms scl tds rng (k + 2)
           (current_time + (if current_time + d0 > tds then tds - current_time else d0))
           (acc @ [\<lparr>note = nt, duration = (if current_time + d0 > tds then tds - current_time else d0)\<rparr>])"
  using assms by (subst plan_loop.simps) (simp add: Let_def)

text \<open>
  The loop ends whenever every rhythm is at least some \<open>mn > 0\<close>: by induction on the
  number \<open>n\<close> of steps of length \<open>mn\<close> that cover the remaining time. The events it appends
  have positive durations that add up to the remaining time, and notes of the scale.
\<close>

lemma plan_loop_total:
  assumes r: "rhythms \<noteq> []" and s: "scl \<noteq> []" and mn: "0 < mn" "\<forall>x\<in>set rhythms. mn \<le> x"
  shows "tds - cur \<le> real n * mn \<Longrightarrow>
         \<exists>evs. plan_loop rhythms scl tds rng k cur acc = Some (Inr (acc @ evs))
           \<and> (\<forall>e\<in>set evs. 0 < duration e \<and> note e \<in> set scl)
           \<and> sum_list (map duration evs) = max 0 (tds - cur)"
proof (induction n arbitrary: k cur acc)
  case 0
  then have "\<not> cur < tds" by simp
  then show ?case using plan_loop_done [of cur tds] by (intro exI [of _ "[]"]) simp
next
  case (Suc n)
  show ?case
  proof (cases "cur < tds")
    case False
    then show ?thesis using plan_loop_done [of cur tds] by (intro exI [of _ "[]"]) simp
  next
    case True
    obtain d0 where d0: "choice rhythms (rng k) = Inr d0" "d0 \<in> set rhythms"
      using choice_Inr [OF r] by blast
    obtain nt where nt: "choice scl (rng (k + 1)) = Inr nt" "nt \<in> set scl"
      using choice_Inr [OF s] by blast
    define dur where "dur = (if cur + d0 > tds then tds - cur else d0)"
    have d0pos: "mn \<le> d0" using d0 mn by blast
    have durpos: "0 < dur" using True d0pos mn(1) by (simp add: dur_def)
    have le: "cur + dur \<le> tds" by (simp add: dur_def)
    have "real (Suc n) * mn = real n * mn + mn" by (simp add: algebra_simps)
    then have bound: "tds - (cur + dur) \<le> real n * mn"
      using Suc.prems d0pos mn(1) by (auto simp: dur_def)
    from Suc.IH [OF bound, of "k + 2" "acc @ [\<lparr>note = nt, duration = dur\<rparr>]"]
    obtain evs where evs:
      "plan_loop rhythms scl tds rng (k + 2) (cur + dur) ((acc @ [\<lparr>note = nt, duration = dur\<rparr>])) =
         Some (Inr ((acc @ [\<lparr>note = nt, duration = dur\<rparr>]) @ evs))"
      "\<forall>e\<in>set evs. 0 < duration e \<and> note e \<in> set scl"
      "sum_list (map duration evs) = max 0 (tds - (cur + dur))" by blast
    have "plan_loop rhythms scl tds rng k cur acc =
            Some (Inr (acc @ (\<lparr>note = nt, duration = dur\<rparr> # evs)))"
      using plan_loop_step [OF True d0(1) nt(1), of acc] evs(1) by (simp add: dur_def)
    moreover have "\<forall>e\<in>set (\<lparr>note = nt, duration = dur\<rparr> # evs). 0 < duration e \<and> note e \<in> set scl"
      using evs(2) durpos nt(2) by simp
    moreover have "sum_list (map duration (\<lparr>note = nt, duration = dur\<rparr> # evs)) = max 0 (tds - cur)"
      using evs(3) le True by simp
    ultimately show ?thesis by blast
  qed
qed

lemma plan_melody_total:
  assumes "0 < bpm m"
  shows "\<exists>evs. plan_melody m tds rng = Some (Inr evs)
           \<and> (\<forall>e\<in>set evs. 0 < duration e \<and> note e \<in> set (scale m @ [REST]))
           \<and> sum_list (map duration evs) = max 0 tds"
proof -
  define q where "q = quarter_note_duration m"
  have qpos: "0 < q" using assms by (simp add: q_def quarter_note_duration_def)
  define mn where "mn = q / 2"
  have mn: "0 < mn" "\<forall>x\<in>set [q, q / 2, q * 1.5]. mn \<le> x" using qpos by (auto simp: mn_def)
  obtain n :: nat where n: "tds / mn \<le> real n" using real_arch_simple by blast
  then have "tds - 0 \<le> real n * mn" using mn(1) by (simp add: pos_divide_le_eq)
  from plan_loop_total [OF _ _ mn this, of "scale m @ [REST]" rng 0 "[]"]
  show ?thesis using assms by (simp add: plan_melody_def q_def Let_def)
qed

lemma moods_cases:
  assumes "map_of MOODS key = Some m"
  shows "0 < bpm m \<and> set (scale m) \<subseteq> fst ` set NOTES \<and> chords m \<noteq> []
         \<and> bpm m \<in> {120, 75, 60}"
  using assms by (auto simp: MOODS_def NOTES_def split: if_splits)

lemma add_melody_no_KeyError:
  assumes "note item = REST \<or> map_of NOTES (note item) \<noteq> None"
  shows "add_melody instrument sample_rate item p ds buf \<noteq> Inl KeyError"
proof -
  have s: "slice_iadd buf a b w \<noteq> Inl KeyError" for a b w
    by (simp add: slice_iadd_def Let_def)
  have c: "create_waveform f d r i \<noteq> Inl KeyError" for f d r i
    by (cases "0 \<le> py_int (r * d)") (use create_waveform_Inr [of r d f i] create_waveform_Inl [of r d f i] in auto)
  show ?thesis using assms s c
    by (auto simp: add_melody_def split: option.splits sum.splits)
qed

text \<open>
  C1: for every mood of the catalog and every total duration \<open>d > 0\<close>, the planning loop
  returns a sequence of events whose durations add up to exactly \<open>d\<close>, and every event has
  a duration greater than \<open>0\<close>, whatever the random source draws.
\<close>

theorem plan_durations_sum:
  assumes "map_of MOODS mood_key = Some m" "0 < d"
  shows "\<exists>evs. plan_melody m d rng = Some (Inr evs)
           \<and> sum_list (map duration evs) = d
           \<and> (\<forall>e\<in>set evs. 0 < duration e)"
proof -
  have "0 < bpm m" using moods_cases [OF assms(1)] by simp
  from plan_melody_total [OF this, of d rng] assms(2) show ?thesis by auto
qed

theorem plan_durations_sum_witness:
  "\<exists>m. map_of MOODS ''sad'' = Some m \<and> (0::real) < 8
     \<and> (\<exists>evs. plan_melody m 8 (\<lambda>n. 3 * n) = Some (Inr evs)
           \<and> sum_list (map duration evs) = 8
           \<and> (\<forall>e\<in>set evs. 0 < duration e))"
proof -
  obtain m where m: "map_of MOODS ''sad'' = Some m" by (simp add: MOODS_def)
  have d: "(0::real) < 8" by simp
  from plan_durations_sum [OF m d, of "\<lambda>n. 3 * n"] m d show ?thesis by blast
qed

text \<open>
  C8: for every mood of the catalog and every total duration, the planning loop terminates
  (it returns a sequence, raising nothing); no event of the sequence has duration zero, and
  the elapsed time, which is the sum of the durations emitted so far, grows strictly with
  every iteration.
\<close>

theorem plan_terminates:
  assumes "map_of MOODS mood_key = Some m"
  shows "\<exists>evs. plan_melody m d rng = Some (Inr evs)
           \<and> (\<forall>e\<in>set evs. duration e \<noteq> 0)
           \<and> (\<forall>i<length evs. sum_list (map duration (take i evs))
                               < sum_list (map duration (take (Suc i) evs)))"
proof -
  have "0 < bpm m" using moods_cases [OF assms(1)] by simp
  from plan_melody_total [OF this, of d rng] obtain evs where
    evs: "plan_melody m d rng = Some (Inr evs)" "\<forall>e\<in>set evs. 0 < duration e" by blast
  have "sum_list (map duration (take i evs)) < sum_list (map duration (take (Suc i) evs))"
    if "i < length evs" for i
  proof -
    have "0 < duration (evs ! i)" using evs(2) that by simp
    then show ?thesis using that by (simp add: take_Suc_conv_app_nth)
  qed
  moreover have "\<forall>e\<in>set evs. duration e \<noteq> 0" using evs(2) by fastforce
  ultimately show ?thesis using evs(1) by blast
qed

theorem plan_terminates_witness:
  "\<exists>m. map_of MOODS ''happy'' = Some m
     \<and> (\<exists>evs. plan_melody m 5 (\<lambda>n. n) = Some (Inr evs)
           \<and> (\<forall>e\<in>set evs. duration e \<noteq> 0)
           \<and> (\<forall>i<length evs. sum_list (map duration (take i evs))
                               < sum_list (map duration (take (Suc i) evs))))"
proof -
  obtain m where m: "map_of MOODS ''happy'' = Some m" by (simp add: MOODS_def)
  from plan_terminates [OF m, of 5 "\<lambda>n. n"] m show ?thesis by blast
qed

text \<open>
  C9: for every mood of the catalog, every note of its scale is a key of \<open>NOTES\<close>; hence
  for every event of a plan for that mood whose note is not the rest, the lookup
  \<^verbatim>\<open>NOTES[item["note"]]\<close> finds a frequency and the melody voice never raises KeyError.
\<close>

theorem scale_notes_resolve:
  assumes "map_of MOODS mood_key = Some m"
  shows "(\<forall>n\<in>set (scale m). \<exists>freq. map_of NOTES n = Some freq)
         \<and> (\<forall>evs. plan_melody m d rng = Some (Inr evs) \<longrightarrow>
               (\<forall>e\<in>set evs. note e \<noteq> REST \<longrightarrow>
                  (\<exists>freq. map_of NOTES (note e) = Some freq)
                  \<and> (\<forall>instrument sample_rate p ds buf.
                        add_melody instrument sample_rate e p ds buf \<noteq> Inl KeyError)))"
proof -
  have mc: "0 < bpm m" "set (scale m) \<subseteq> fst ` set NOTES" using moods_cases [OF assms] by simp_all
  have res: "\<exists>freq. map_of NOTES n = Some freq" if "n \<in> set (scale m)" for n
  proof -
    have "n \<in> fst ` set NOTES" using that mc(2) by blast
    then have "map_of NOTES n \<noteq> None" by (simp add: map_of_eq_None_iff)
    then show ?thesis by blast
  qed
  from plan_melody_total [OF mc(1), of d rng] obtain evs0 where
    evs0: "plan_melody m d rng = Some (Inr evs0)" "\<forall>e\<in>set evs0. note e \<in> set (scale m @ [REST])"
    by blast
  have "(\<exists>freq. map_of NOTES (note e) = Some freq)
        \<and> (\<forall>instrument sample_rate p ds buf.
              add_melody instrument sample_rate e p ds buf \<noteq> Inl KeyError)"
    if "plan_melody m d rng = Some (Inr evs)" "e \<in> set evs" "note e \<noteq> REST" for evs e
  proof -
    have "evs = evs0" using that(1) evs0(1) by simp
    then have "note e \<in> set (scale m)" using evs0(2) that(2,3) by auto
    then have r: "\<exists>freq. map_of NOTES (note e) = Some freq" by (rule res)
    then have "map_of NOTES (note e) \<noteq> None" by auto
    then show ?thesis using r add_melody_no_KeyError [of e] by blast
  qed
  then show ?thesis using res by blast
qed

theorem scale_notes_resolve_witness:
  "\<exists>m. map_of MOODS ''dreamy'' = Some m
     \<and> (\<forall>n\<in>set (scale m). \<exists>freq. map_of NOTES n = Some freq)
     \<and> (\<exists>evs. plan_melody m 2 (\<lambda>n. n) = Some (Inr evs)
          \<and> (\<forall>e\<in>set evs. note e \<noteq> REST \<longrightarrow> (\<exists>freq. map_of NOTES (note e) = Some freq)))"
proof -
  obtain m where m: "map_of MOODS ''dreamy'' = Some m" by (simp add: MOODS_def)
  have "0 < bpm m" using m by (auto simp: MOODS_def)
  from plan_melody_total [OF this, of 2 "\<lambda>n. n"] obtain evs where
    evs: "plan_melody m 2 (\<lambda>n. n) = Some (Inr evs)" by blast
  from scale_notes_resolve [OF m, of 2 "\<lambda>n. n"] m evs show ?thesis by blast
qed

section \<open>Mixing: lengths and bounds\<close>

lemma py_int_nonneg: "0 \<le> x \<Longrightarrow> 0 \<le> py_int x"
  by (simp add: py_int_def)

lemma py_int_add_le: "0 \<le> x \<Longrightarrow> 0 \<le> y \<Longrightarrow> py_int x + py_int y \<le> py_int (x + y)"
  by (simp add: py_int_def le_floor_add)

lemma create_waveform_length:
  assumes "create_waveform f d r i = Inr w"
  shows "length w = nat (py_int (r * d))"
proof (cases "0 \<le> py_int (r * d)")
  case True
  from create_waveform_Inr [OF True, of f i] assms show ?thesis by auto
next
  case False
  then have "create_waveform f d r i = Inl ValueError" by (simp add: create_waveform_Inl)
  with assms show ?thesis by simp
qed

lemma slice_len_le: "a \<le> b \<Longrightarrow> slice_index n b - slice_index n a \<le> nat (b - a)"
  by (auto simp: slice_index_def)

lemma slice_iadd_length: "slice_iadd buf a b w = Inr buf' \<Longrightarrow> length buf' = length buf"
  by (auto simp: slice_iadd_def Let_def split: if_splits)

lemma slice_iadd_nth:
  assumes "slice_iadd buf a b w = Inr buf'" "length w = nat (b - a)" "k < length buf"
  shows "buf' ! k = buf ! k
           + (if slice_index (length buf) a \<le> k \<and> k < slice_index (length buf) b
              then w ! (k - slice_index (length buf) a) else 0)"
proof -
  let ?lo = "slice_index (length buf) a"
  let ?hi = "slice_index (length buf) b"
  have rng: "(?lo \<le> k \<and> k < ?lo + (?hi - ?lo)) = (?lo \<le> k \<and> k < ?hi)" by auto
  show ?thesis
  proof (cases "length w = ?hi - ?lo")
    case True
    then have "buf' = map (\<lambda>k. if ?lo \<le> k \<and> k < ?lo + (?hi - ?lo)
                                then buf ! k + w ! (k - ?lo) else buf ! k) [0..<length buf]"
      using assms(1) by (simp add: slice_iadd_def Let_def)
    then show ?thesis using assms(3) rng by simp
  next
    case False
    then have w1: "length w = 1" using assms(1)
      by (auto simp: slice_iadd_def Let_def split: if_splits)
    then have "a \<le> b" using assms(2) by linarith
    then have "?hi - ?lo \<le> nat (b - a)" by (rule slice_len_le)
    then have emp: "?hi - ?lo = 0" using False w1 assms(2) by linarith
    have "buf' = map (\<lambda>k. if ?lo \<le> k \<and> k < ?lo + (?hi - ?lo)
                           then buf ! k + w ! 0 else buf ! k) [0..<length buf]"
      using assms(1) False w1 by (simp add: slice_iadd_def Let_def)
    then show ?thesis using assms(3) emp by auto
  qed
qed

lemma slice_iadd_ok:
  assumes "0 \<le> a" "a \<le> b" "b \<le> int (length buf)" "length w = nat (b - a)"
  shows "\<exists>buf'. slice_iadd buf a b w = Inr buf' \<and> length buf' = length buf"
proof -
  have "slice_index (length buf) a = nat a" "slice_index (length buf) b = nat b"
    using assms by (auto simp: slice_index_def)
  moreover have "nat b - nat a = nat (b - a)" using assms by linarith
  ultimately show ?thesis using assms(4) by (simp add: slice_iadd_def Let_def)
qed

text \<open>
  When the note resolves, the duration is not negative and the slice lies inside the
  buffer, no step of the mixing loop raises, and the buffer keeps its length.
\<close>

lemma add_melody_ok:
  assumes "note item = REST \<or> map_of NOTES (note item) \<noteq> None"
    and "ds = py_int (duration item * sr)" "0 \<le> ds" "0 \<le> p" "p + ds \<le> int (length buf)"
  shows "\<exists>buf'. add_melody instrument sr item p ds buf = Inr buf' \<and> length buf' = length buf"
proof (cases "note item = REST")
  case True
  then show ?thesis by (simp add: add_melody_def)
next
  case False
  then obtain freq where fr: "map_of NOTES (note item) = Some freq" using assms(1) by auto
  have nn: "0 \<le> py_int (sr * duration item)" using assms(2,3) by (simp add: mult.commute)
  from create_waveform_Inr [OF nn, of freq instrument] obtain w where
    w: "create_waveform freq (duration item) sr instrument = Inr w" "length w = nat ds"
    using assms(2) by (auto simp: mult.commute)
  have "length (map (\<lambda>x. x * 0.45) w) = nat (p + ds - p)" using w(2) by simp
  from slice_iadd_ok [OF assms(4) _ assms(5) this] assms(3) obtain buf' where
    "slice_iadd buf p (p + ds) (map (\<lambda>x. x * 0.45) w) = Inr buf'" "length buf' = length buf"
    by auto
  then show ?thesis using False fr w(1) by (simp add: add_melody_def)
qed

lemma add_harmony_ok:
  assumes "ds = py_int (duration item * sr)" "0 \<le> ds" "0 \<le> p"
  shows "p + ds \<le> int (length buf) \<Longrightarrow>
         \<exists>buf'. add_harmony sr item p ds chord buf = Inr buf' \<and> length buf' = length buf"
proof (induction chord arbitrary: buf)
  case Nil
  then show ?case by simp
next
  case (Cons n ns)
  show ?case
  proof (cases "map_of NOTES n")
    case None
    then show ?thesis using Cons.IH [OF Cons.prems] by simp
  next
    case (Some freq)
    have nn: "0 \<le> py_int (sr * duration item)" using assms(1,2) by (simp add: mult.commute)
    from create_waveform_Inr [OF nn, of freq "''organ''"] obtain w where
      w: "create_waveform freq (duration item) sr ''organ'' = Inr w" "length w = nat ds"
      using assms(1) by (auto simp: mult.commute)
    have "length (map (\<lambda>x. x * 0.20) w) = nat (p + ds - p)" using w(2) by simp
    from slice_iadd_ok [OF assms(3) _ Cons.prems this] assms(2) obtain buf1 where
      b1: "slice_iadd buf p (p + ds) (map (\<lambda>x. x * 0.20) w) = Inr buf1" "length buf1 = length buf"
      by auto
    from Cons.IH [of buf1] Cons.prems b1(2) obtain buf' where
      "add_harmony sr item p ds ns buf1 = Inr buf'" "length buf' = length buf1" by auto
    then show ?thesis using Some w(1) b1 by simp
  qed
qed

lemma render_item_ok:
  assumes "note item = REST \<or> map_of NOTES (note item) \<noteq> None"
    and "0 \<le> duration item" "0 \<le> sr"
    and "chord_index st < length (chords m)"
    and "py_int ((quarter_note_duration m * 4) * sr) \<noteq> 0"
    and "0 \<le> current_pos_samples st"
    and "current_pos_samples st + py_int (duration item * sr) \<le> int (length (final_track_data st))"
  shows "\<exists>st'. render_item m instrument sr item st = Inr st'
           \<and> length (final_track_data st') = length (final_track_data st)
           \<and> current_pos_samples st' = current_pos_samples st + py_int (duration item * sr)
           \<and> chord_index st' =
               (if (current_pos_samples st + py_int (duration item * sr))
                     mod py_int ((quarter_note_duration m * 4) * sr) < py_int (duration item * sr)
                then (chord_index st + 1) mod length (chords m) else chord_index st)"
proof -
  define ds where "ds = py_int (duration item * sr)"
  have ds0: "0 \<le> ds" unfolding ds_def using assms(2,3) by (intro py_int_nonneg) simp
  from add_melody_ok [OF assms(1) ds_def ds0 assms(6), of "final_track_data st" instrument] assms(7)
  obtain buf1 where b1: "add_melody instrument sr item (current_pos_samples st) ds (final_track_data st) = Inr buf1"
    "length buf1 = length (final_track_data st)" by (auto simp: ds_def)
  from add_harmony_ok [OF ds_def ds0 assms(6), of buf1 "chords m ! chord_index st"] assms(7) b1(2)
  obtain buf2 where b2: "add_harmony sr item (current_pos_samples st) ds (chords m ! chord_index st) buf1 = Inr buf2"
    "length buf2 = length buf1" by (auto simp: ds_def)
  show ?thesis using b1 b2 assms(4,5) by (simp add: render_item_def Let_def ds_def [symmetric])
qed

lemma render_loop_ok:
  assumes "0 \<le> sr" "py_int ((quarter_note_duration m * 4) * sr) \<noteq> 0"
  shows "\<forall>e\<in>set evs. (note e = REST \<or> map_of NOTES (note e) \<noteq> None) \<and> 0 \<le> duration e \<Longrightarrow>
         chord_index st < length (chords m) \<Longrightarrow> 0 \<le> current_pos_samples st \<Longrightarrow>
         current_pos_samples st + (\<Sum>e\<leftarrow>evs. py_int (duration e * sr))
           \<le> int (length (final_track_data st)) \<Longrightarrow>
         \<exists>st'. render_loop m instrument sr evs st = Inr st'
           \<and> length (final_track_data st') = length (final_track_data st)
           \<and> current_pos_samples st' = current_pos_samples st + (\<Sum>e\<leftarrow>evs. py_int (duration e * sr))
           \<and> chord_index st' < length (chords m)"
proof (induction evs arbitrary: st)
  case Nil
  then show ?case by simp
next
  case (Cons e evs)
  have e: "note e = REST \<or> map_of NOTES (note e) \<noteq> None" "0 \<le> duration e" using Cons.prems(1) by simp_all
  have rest0: "0 \<le> (\<Sum>e\<leftarrow>evs. py_int (duration e * sr))"
    using Cons.prems(1) assms(1) by (intro sum_list_nonneg) (auto intro!: py_int_nonneg)
  have ds0: "0 \<le> py_int (duration e * sr)" using e(2) assms(1) by (intro py_int_nonneg) simp
  have fit: "current_pos_samples st + py_int (duration e * sr) \<le> int (length (final_track_data st))"
    using Cons.prems(4) rest0 by simp
  from render_item_ok [OF e assms(1) Cons.prems(2) assms(2) Cons.prems(3) fit, of instrument]
  obtain st1 where st1: "render_item m instrument sr e st = Inr st1"
    "length (final_track_data st1) = length (final_track_data st)"
    "current_pos_samples st1 = current_pos_samples st + py_int (duration e * sr)"
    "chord_index st1 =
               (if (current_pos_samples st + py_int (duration e * sr))
                     mod py_int ((quarter_note_duration m * 4) * sr) < py_int (duration e * sr)
                then (chord_index st + 1) mod length (chords m) else chord_index st)" by blast
  have "0 < length (chords m)" using Cons.prems(2) by linarith
  then have ci: "chord_index st1 < length (chords m)" using st1(4) Cons.prems(2) by simp
  have p1: "0 \<le> current_pos_samples st1" using st1(3) Cons.prems(3) ds0 by simp
  have fit1: "current_pos_samples st1 + (\<Sum>e\<leftarrow>evs. py_int (duration e * sr))
           \<le> int (length (final_track_data st1))" using st1(2,3) Cons.prems(4) by simp
  from Cons.IH [OF _ ci p1 fit1] Cons.prems(1) obtain st' where
    "render_loop m instrument sr evs st1 = Inr st'"
    "length (final_track_data st') = length (final_track_data st1)"
    "current_pos_samples st' = current_pos_samples st1 + (\<Sum>e\<leftarrow>evs. py_int (duration e * sr))"
    "chord_index st' < length (chords m)" by auto
  then show ?case using st1 by simp
qed

text \<open>Truncation is superadditive: the truncated sample counts add up to at most the
  truncated total.\<close>

lemma samples_sum_le:
  assumes "0 \<le> sr"
  shows "\<forall>e\<in>set evs. 0 \<le> duration e \<Longrightarrow>
         (\<Sum>e\<leftarrow>evs. py_int (duration e * sr)) \<le> py_int (sr * sum_list (map duration evs))"
proof (induction evs)
  case Nil
  then show ?case by (simp add: py_int_def)
next
  case (Cons e evs)
  have a: "0 \<le> duration e * sr" using Cons.prems assms by simp
  have b: "0 \<le> sr * sum_list (map duration evs)"
    using Cons.prems assms by (intro mult_nonneg_nonneg sum_list_nonneg) auto
  have "(\<Sum>e\<leftarrow>e # evs. py_int (duration e * sr))
          \<le> py_int (duration e * sr) + py_int (sr * sum_list (map duration evs))"
    using Cons by simp
  also have "\<dots> \<le> py_int (duration e * sr + sr * sum_list (map duration evs))"
    by (rule py_int_add_le [OF a b])
  also have "duration e * sr + sr * sum_list (map duration evs)
               = sr * sum_list (map duration (e # evs))" by (simp add: algebra_simps)
  finally show ?case .
qed

lemma sum_list_take_le:
  fixes f :: "'a \<Rightarrow> int"
  assumes "\<forall>x\<in>set xs. 0 \<le> f x"
  shows "sum_list (map f (take j xs)) \<le> sum_list (map f xs)"
proof -
  have "0 \<le> sum_list (map f (drop j xs))"
    using assms by (intro sum_list_nonneg) (auto dest: in_set_dropD)
  moreover have "sum_list (map f xs) = sum_list (map f (take j xs)) + sum_list (map f (drop j xs))"
    by (metis append_take_drop_id map_append sum_list_append)
  ultimately show ?thesis by linarith
qed

lemma catalog_samples:
  assumes "map_of MOODS key = Some m"
  shows "0 < py_int (quarter_note_duration m * 44100)
       \<and> py_int ((quarter_note_duration m * 4) * 44100) = 4 * py_int (quarter_note_duration m * 44100)
       \<and> 0 < quarter_note_duration m"
proof -
  have "bpm m = 120 \<or> bpm m = 75 \<or> bpm m = 60" using moods_cases [OF assms] by simp
  then show ?thesis by (auto simp: quarter_note_duration_def py_int_def)
qed

section \<open>Mixing: the harmony voices\<close>

lemma add_harmony_nth:
  assumes "ds = py_int (duration item * sr)"
  shows "add_harmony sr item p ds chord buf = Inr buf' \<Longrightarrow> length buf = L \<Longrightarrow>
         length buf' = L
         \<and> (\<forall>k<L. buf' ! k = buf ! k
               + (if slice_index L p \<le> k \<and> k < slice_index L (p + ds)
                  then (\<Sum>n\<leftarrow>chord. case map_of NOTES n of
                          None \<Rightarrow> 0
                        | Some freq \<Rightarrow>
                            (case create_waveform freq (duration item) sr ''organ'' of
                               Inl e \<Rightarrow> 0
                             | Inr w \<Rightarrow> w ! (k - slice_index L p) * 0.20))
                  else 0))"
proof (induction chord arbitrary: buf)
  case Nil
  then show ?case by simp
next
  case (Cons n ns)
  show ?case
  proof (cases "map_of NOTES n")
    case None
    then show ?thesis using Cons.IH [of buf] Cons.prems by simp
  next
    case (Some freq)
    from Cons.prems(1) Some obtain w buf1 where
      w: "create_waveform freq (duration item) sr ''organ'' = Inr w"
      and b1: "slice_iadd buf p (p + ds) (map (\<lambda>x. x * 0.20) w) = Inr buf1"
      and r: "add_harmony sr item p ds ns buf1 = Inr buf'"
      by (auto split: sum.splits)
    have lw0: "length w = nat ds"
      using create_waveform_length [OF w] assms by (simp add: mult.commute)
    then have lw: "length (map (\<lambda>x. x * 0.20) w) = nat (p + ds - p)" by simp
    have l1: "length buf1 = L" using slice_iadd_length [OF b1] Cons.prems(2) by simp
    note ih = Cons.IH [OF r l1]
    have "buf' ! k = buf ! k
               + (if slice_index L p \<le> k \<and> k < slice_index L (p + ds)
                  then (\<Sum>n\<leftarrow>n # ns. case map_of NOTES n of
                          None \<Rightarrow> 0
                        | Some freq \<Rightarrow>
                            (case create_waveform freq (duration item) sr ''organ'' of
                               Inl e \<Rightarrow> 0
                             | Inr w \<Rightarrow> w ! (k - slice_index L p) * 0.20))
                  else 0)" if k: "k < L" for k
    proof -
      define g where "g = (\<lambda>n. case map_of NOTES n of
                          None \<Rightarrow> 0
                        | Some freq \<Rightarrow>
                            (case create_waveform freq (duration item) sr ''organ'' of
                               Inl e \<Rightarrow> 0
                             | Inr w \<Rightarrow> w ! (k - slice_index L p) * 0.20))"
      let ?in = "slice_index L p \<le> k \<and> k < slice_index L (p + ds)"
      define X where "X = map (\<lambda>x. x * 0.20) w ! (k - slice_index L p)"
      define S where "S = sum_list (map g ns)"
      define T where "T = sum_list (map g (n # ns))"
      have kb: "k < length buf" using k Cons.prems(2) by simp
      have A: "buf1 ! k = buf ! k + (if ?in then X else 0)"
        unfolding X_def using slice_iadd_nth [OF b1 lw kb] Cons.prems(2) by simp
      have B: "buf' ! k = buf1 ! k + (if ?in then S else 0)"
        unfolding S_def g_def using ih k by blast
      have gn: "g n = w ! (k - slice_index L p) * 0.20" by (simp add: g_def Some w)
      have M: "X = g n" if "?in"
      proof -
        have "slice_index L (p + ds) - slice_index L p \<le> nat (p + ds - p)"
        proof (cases "p \<le> p + ds")
          case True
          then show ?thesis by (rule slice_len_le)
        next
          case False
          then have "length (map (\<lambda>x. x * 0.20) w) = 0" using lw by simp
          moreover have "0 < slice_index L (p + ds) - slice_index L p"
            using that by linarith
          ultimately have "slice_iadd buf p (p + ds) (map (\<lambda>x. x * 0.20) w) = Inl ValueError"
            using Cons.prems(2) by (simp add: slice_iadd_def Let_def)
          then show ?thesis using b1 by simp
        qed
        moreover have "k - slice_index L p < slice_index L (p + ds) - slice_index L p"
          using that by linarith
        ultimately have "k - slice_index L p < length w" using lw0 by simp
        then show ?thesis unfolding gn X_def by (rule nth_map)
      qed
      have C: "T = g n + S" by (simp add: T_def S_def)
      have "buf' ! k = buf ! k + (if ?in then T else 0)"
        using A B M C by (cases ?in) auto
      then have "buf' ! k = buf ! k + (if ?in then sum_list (map g (n # ns)) else 0)"
        unfolding T_def .
      then show ?thesis unfolding g_def .
    qed
    moreover have "length buf' = L" using ih by blast
    ultimately show ?thesis by blast
  qed
qed

text \<open>
  C7: for every melody event that the mixing loop processes, whatever the instrument of
  the melody, the buffer after the event is the buffer after the melody voice plus, at
  every position of the slice that starts at the cursor, the sum over the notes of the
  current chord of \<open>0.20\<close> times the sample of the \<open>organ\<close> waveform of that note; a
  chord note that is not a key of \<open>NOTES\<close> adds \<open>0\<close>, and the loop skips it without
  raising.
\<close>

theorem harmony_organ_gain:
  assumes "render_item m instrument sr item st = Inr st'"
  shows "\<exists>buf1. add_melody instrument sr item (current_pos_samples st)
                   (py_int (duration item * sr)) (final_track_data st) = Inr buf1
           \<and> length (final_track_data st') = length buf1
           \<and> (\<forall>k<length buf1. final_track_data st' ! k = buf1 ! k
                 + (if slice_index (length buf1) (current_pos_samples st) \<le> k
                       \<and> k < slice_index (length buf1)
                               (current_pos_samples st + py_int (duration item * sr))
                    then (\<Sum>n\<leftarrow>chords m ! chord_index st. case map_of NOTES n of
                            None \<Rightarrow> 0
                          | Some freq \<Rightarrow>
                              (case create_waveform freq (duration item) sr ''organ'' of
                                 Inl e \<Rightarrow> 0
                               | Inr w \<Rightarrow>
                                   w ! (k - slice_index (length buf1) (current_pos_samples st))
                                   * 0.20))
                    else 0))
       \<and> (\<forall>n ns p ds buf. map_of NOTES n = None \<longrightarrow>
             add_harmony sr item p ds (n # ns) buf = add_harmony sr item p ds ns buf)"
proof -
  let ?ds = "py_int (duration item * sr)"
  from assms obtain buf1 buf2 where
    b1: "add_melody instrument sr item (current_pos_samples st) ?ds (final_track_data st) = Inr buf1"
    and b2: "add_harmony sr item (current_pos_samples st) ?ds (chords m ! chord_index st) buf1 = Inr buf2"
    and st': "final_track_data st' = buf2"
    by (auto simp: render_item_def Let_def split: sum.splits if_splits)
  have "add_harmony sr item (current_pos_samples st) ?ds (chords m ! chord_index st) buf1
          = Inr (final_track_data st')" using b2 st' by simp
  from add_harmony_nth [OF refl this refl] b1
  have "\<exists>buf1. add_melody instrument sr item (current_pos_samples st)
                   (py_int (duration item * sr)) (final_track_data st) = Inr buf1
           \<and> length (final_track_data st') = length buf1
           \<and> (\<forall>k<length buf1. final_track_data st' ! k = buf1 ! k
                 + (if slice_index (length buf1) (current_pos_samples st) \<le> k
                       \<and> k < slice_index (length buf1)
                               (current_pos_samples st + py_int (duration item * sr))
                    then (\<Sum>n\<leftarrow>chords m ! chord_index st. case map_of NOTES n of
                            None \<Rightarrow> 0
                          | Some freq \<Rightarrow>
                              (case create_waveform freq (duration item) sr ''organ'' of
                                 Inl e \<Rightarrow> 0
                               | Inr w \<Rightarrow>
                                   w ! (k - slice_index (length buf1) (current_pos_samples st))
                                   * 0.20))
                    else 0))"
    by blast
  moreover have "\<forall>n ns p ds buf. map_of NOTES n = None \<longrightarrow>
             add_harmony sr item p ds (n # ns) buf = add_harmony sr item p ds ns buf"
    by simp
  ultimately show ?thesis by blast
qed

theorem harmony_organ_gain_witness:
  "\<exists>m st'. map_of MOODS ''sad'' = Some m
     \<and> render_item m ''retro_synth'' 2 \<lparr>note = REST, duration = 1\<rparr>
          \<lparr>final_track_data = [0, 0, 0], current_pos_samples = 1, chord_index = 2\<rparr> = Inr st'
     \<and> length (final_track_data st') = 3
     \<and> final_track_data st' ! 2 =
         (case create_waveform 174.61 1 2 ''organ'' of Inl e \<Rightarrow> 0 | Inr w \<Rightarrow> w ! 1 * 0.20)
         + (case create_waveform 261.63 1 2 ''organ'' of Inl e \<Rightarrow> 0 | Inr w \<Rightarrow> w ! 1 * 0.20)"
proof -
  let ?item = "\<lparr>note = REST, duration = 1\<rparr>"
  let ?st = "\<lparr>final_track_data = [0, 0, 0], current_pos_samples = 1, chord_index = 2\<rparr>"
  obtain m where m: "map_of MOODS ''sad'' = Some m" "chords m ! 2 = [''F3'', ''Ab3'', ''C4'']"
    "length (chords m) = 4" "bpm m = 75"
    by (simp add: MOODS_def)
  have bar: "py_int ((quarter_note_duration m * 4) * 2) \<noteq> 0"
    using m(4) by (simp add: quarter_note_duration_def py_int_def)
  have ds: "py_int (duration ?item * 2) = 2" by (simp add: py_int_def)
  have "\<exists>st'. render_item m ''retro_synth'' 2 ?item ?st = Inr st'"
    using render_item_ok [of ?item 2 ?st m "''retro_synth''"] m(3) bar ds by auto
  then obtain st' where st': "render_item m ''retro_synth'' 2 ?item ?st = Inr st'" by blast
  have mel: "add_melody ''retro_synth'' 2 ?item 1 2 [0, 0, 0] = Inr [0, 0, 0]"
    by (simp add: add_melody_def)
  from harmony_organ_gain [OF st'] obtain buf1 where
    b1: "add_melody ''retro_synth'' 2 ?item (current_pos_samples ?st)
           (py_int (duration ?item * 2)) (final_track_data ?st) = Inr buf1"
    and len: "length (final_track_data st') = length buf1"
    and nth: "\<forall>k<length buf1. final_track_data st' ! k = buf1 ! k
                 + (if slice_index (length buf1) (current_pos_samples ?st) \<le> k
                       \<and> k < slice_index (length buf1)
                               (current_pos_samples ?st + py_int (duration ?item * 2))
                    then (\<Sum>n\<leftarrow>chords m ! chord_index ?st. case map_of NOTES n of
                            None \<Rightarrow> 0
                          | Some freq \<Rightarrow>
                              (case create_waveform freq (duration ?item) 2 ''organ'' of
                                 Inl e \<Rightarrow> 0
                               | Inr w \<Rightarrow>
                                   w ! (k - slice_index (length buf1) (current_pos_samples ?st))
                                   * 0.20))
                    else 0)"
    by blast
  have buf1: "buf1 = [0, 0, 0]" using b1 mel ds by simp
  have "(2::nat) < length buf1" using buf1 by simp
  from nth [rule_format, OF this] buf1 ds m(2)
  have "final_track_data st' ! 2 =
         (case create_waveform 174.61 1 2 ''organ'' of Inl e \<Rightarrow> 0 | Inr w \<Rightarrow> w ! 1 * 0.20)
         + (case create_waveform 261.63 1 2 ''organ'' of Inl e \<Rightarrow> 0 | Inr w \<Rightarrow> w ! 1 * 0.20)"
    by (simp add: slice_index_def NOTES_def cong: sum.case_cong option.case_cong)
  moreover have "length (final_track_data st') = 3" using len buf1 by simp
  ultimately have "length (final_track_data st') = 3 \<and> final_track_data st' ! 2 =
         (case create_waveform 174.61 1 2 ''organ'' of Inl e \<Rightarrow> 0 | Inr w \<Rightarrow> w ! 1 * 0.20)
         + (case create_waveform 261.63 1 2 ''organ'' of Inl e \<Rightarrow> 0 | Inr w \<Rightarrow> w ! 1 * 0.20)"
    by blast
  with m(1) st' show ?thesis by blast
qed

section \<open>Mixing: the buffer bound in exact arithmetic\<close>

text \<open>
  In exact arithmetic every plan fits the buffer: the truncated sample counts of the events
  add up to at most the truncated total, so at every event the cursor plus the event's
  samples does not exceed the buffer length and the loop raises nothing. The clipping of
  the last event is written to achieve this; the overrun shown at the end of the theory
  comes from rounding alone.
\<close>

lemma render_in_bounds_exact:
  assumes "map_of MOODS mood_key = Some m" "0 < d" "plan_melody m d rng = Some (Inr evs)"
  shows "(\<Sum>e\<leftarrow>evs. py_int (duration e * 44100)) \<le> py_int (44100 * d)
       \<and> (\<forall>j<length evs. \<exists>st.
             render_loop m instrument 44100 (take j evs)
               \<lparr>final_track_data = replicate (nat (py_int (44100 * d))) 0,
                current_pos_samples = 0, chord_index = 0\<rparr> = Inr st
             \<and> int (length (final_track_data st)) = py_int (44100 * d)
             \<and> 0 \<le> current_pos_samples st
             \<and> current_pos_samples st + py_int (duration (evs ! j) * 44100)
                 \<le> int (length (final_track_data st)))
       \<and> (\<exists>st. render_loop m instrument 44100 evs
               \<lparr>final_track_data = replicate (nat (py_int (44100 * d))) 0,
                current_pos_samples = 0, chord_index = 0\<rparr> = Inr st)"
proof -
  let ?sr = "44100 :: real"
  let ?N = "py_int (?sr * d)"
  let ?st0 = "\<lparr>final_track_data = replicate (nat ?N) 0, current_pos_samples = 0, chord_index = 0\<rparr>"
  let ?f = "\<lambda>e. py_int (duration e * ?sr)"
  have mc: "0 < bpm m" "set (scale m) \<subseteq> fst ` set NOTES" "chords m \<noteq> []"
    using moods_cases [OF assms(1)] by simp_all
  from plan_melody_total [OF mc(1), of d rng] assms(2,3) have
    pos: "\<forall>e\<in>set evs. 0 < duration e \<and> note e \<in> set (scale m @ [REST])"
    and tot: "sum_list (map duration evs) = d" by auto
  have ok: "\<forall>e\<in>set evs. (note e = REST \<or> map_of NOTES (note e) \<noteq> None) \<and> 0 \<le> duration e"
  proof
    fix e assume e: "e \<in> set evs"
    then have "note e = REST \<or> note e \<in> fst ` set NOTES" using pos mc(2) by auto
    then have "note e = REST \<or> map_of NOTES (note e) \<noteq> None" by (simp add: map_of_eq_None_iff)
    moreover have "0 \<le> duration e" using pos e by fastforce
    ultimately show "(note e = REST \<or> map_of NOTES (note e) \<noteq> None) \<and> 0 \<le> duration e" ..
  qed
  have N0: "0 \<le> ?N" using assms(2) by (intro py_int_nonneg) simp
  have fnn: "\<forall>e\<in>set evs. 0 \<le> ?f e" using ok by (auto intro!: py_int_nonneg)
  have total: "sum_list (map ?f evs) \<le> ?N"
    using samples_sum_le [of ?sr evs] ok tot by simp
  have bar: "py_int ((quarter_note_duration m * 4) * ?sr) \<noteq> 0"
    using catalog_samples [OF assms(1)] by simp
  have ci0: "chord_index ?st0 < length (chords m)" using mc(3) by simp
  have loop: "\<exists>st. render_loop m instrument ?sr xs ?st0 = Inr st
             \<and> length (final_track_data st) = length (final_track_data ?st0)
             \<and> current_pos_samples st = current_pos_samples ?st0 + sum_list (map ?f xs)
             \<and> chord_index st < length (chords m)"
    if sub: "set xs \<subseteq> set evs" and le: "sum_list (map ?f xs) \<le> ?N" for xs
  proof (rule render_loop_ok [OF _ bar _ ci0])
    show "(0::real) \<le> 44100" by simp
    show "\<forall>e\<in>set xs. (note e = REST \<or> map_of NOTES (note e) \<noteq> None) \<and> 0 \<le> duration e"
      using ok sub by blast
    show "0 \<le> current_pos_samples ?st0" by simp
    show "current_pos_samples ?st0 + sum_list (map ?f xs) \<le> int (length (final_track_data ?st0))"
      using le N0 by simp
  qed
  have pre: "\<exists>st. render_loop m instrument ?sr (take j evs) ?st0 = Inr st
             \<and> int (length (final_track_data st)) = ?N
             \<and> 0 \<le> current_pos_samples st
             \<and> current_pos_samples st + ?f (evs ! j) \<le> int (length (final_track_data st))"
    if j: "j < length evs" for j
  proof -
    have s1: "sum_list (map ?f (take (Suc j) evs)) \<le> ?N"
      using sum_list_take_le [OF fnn, of "Suc j"] total by linarith
    have s2: "sum_list (map ?f (take (Suc j) evs)) = sum_list (map ?f (take j evs)) + ?f (evs ! j)"
      using j by (simp add: take_Suc_conv_app_nth)
    have fj: "0 \<le> ?f (evs ! j)" using fnn j by simp
    have s3: "0 \<le> sum_list (map ?f (take j evs))"
      using fnn by (intro sum_list_nonneg) (auto dest: in_set_takeD)
    have "sum_list (map ?f (take j evs)) \<le> ?N" using s1 s2 fj by linarith
    from loop [OF set_take_subset this] obtain st where
      st: "render_loop m instrument ?sr (take j evs) ?st0 = Inr st"
      "length (final_track_data st) = length (final_track_data ?st0)"
      "current_pos_samples st = current_pos_samples ?st0 + sum_list (map ?f (take j evs))" by blast
    have "int (length (final_track_data st)) = ?N" using st(2) N0 by simp
    moreover have "0 \<le> current_pos_samples st" using st(3) s3 by simp
    moreover have "current_pos_samples st + ?f (evs ! j) \<le> int (length (final_track_data st))"
      using st(2,3) s1 s2 N0 by simp
    ultimately show ?thesis using st(1) by blast
  qed
  have "\<exists>st. render_loop m instrument ?sr evs ?st0 = Inr st"
    using loop [OF subset_refl total] by blast
  with total pre show ?thesis by blast
qed

section \<open>Mixing: the chord index\<close>

lemma bar_cross:
  assumes "0 < (D::int)"
  shows "(int (Suc j) * D mod (4 * D) < D) = (Suc j mod 4 = 0)"
proof -
  have a: "int (Suc j) * D mod (4 * D) = (int (Suc j) mod 4) * D"
    by (metis mult.commute mult_mod_left)
  have b: "((int (Suc j) mod 4) * D < D) = (int (Suc j) mod 4 < 1)"
    using assms by (metis mult_less_cancel_right_pos mult_1)
  have c: "(int (Suc j) mod 4 < 1) = (Suc j mod 4 = 0)" by presburger
  show ?thesis unfolding a b c ..
qed

lemma ci_step:
  assumes "0 < L"
  shows "(if Suc j mod 4 = 0 then ((j div 4) mod L + 1) mod L else (j div 4) mod L)
         = (Suc j div 4) mod L"
proof (cases "Suc j mod 4 = 0")
  case True
  then have "Suc j div 4 = Suc (j div 4)" by presburger
  then show ?thesis using True by (simp add: mod_Suc_eq)
next
  case False
  then have "Suc j div 4 = j div 4" by presburger
  then show ?thesis using False by simp
qed

lemma uniform_loop:
  assumes sr: "0 \<le> sr" and D: "0 < py_int (q * sr)"
    and bar: "py_int ((quarter_note_duration m * 4) * sr) = 4 * py_int (q * sr)"
    and q: "0 \<le> q"
  shows "\<forall>e\<in>set evs. duration e = q \<and> (note e = REST \<or> map_of NOTES (note e) \<noteq> None) \<Longrightarrow>
         chords m \<noteq> [] \<Longrightarrow>
         chord_index st = (j div 4) mod length (chords m) \<Longrightarrow>
         current_pos_samples st = int j * py_int (q * sr) \<Longrightarrow>
         (int j + int (length evs)) * py_int (q * sr) \<le> int (length (final_track_data st)) \<Longrightarrow>
         \<exists>st'. render_loop m instrument sr evs st = Inr st'
           \<and> chord_index st' = ((j + length evs) div 4) mod length (chords m)
           \<and> current_pos_samples st' = int (j + length evs) * py_int (q * sr)
           \<and> length (final_track_data st') = length (final_track_data st)"
proof (induction evs arbitrary: st j)
  case Nil
  then show ?case by simp
next
  case (Cons e evs)
  let ?D = "py_int (q * sr)"
  let ?L = "length (chords m)"
  have L: "0 < ?L" using Cons.prems(2) by simp
  have e: "note e = REST \<or> map_of NOTES (note e) \<noteq> None" "duration e = q" using Cons.prems(1) by simp_all
  have ci: "chord_index st < ?L" using Cons.prems(3) L by simp
  have barnz: "py_int ((quarter_note_duration m * 4) * sr) \<noteq> 0" using bar D by simp
  have p0: "0 \<le> current_pos_samples st" using Cons.prems(4) D by simp
  have "(int j + 1) * ?D \<le> (int j + int (length (e # evs))) * ?D"
    using D by (intro mult_right_mono) simp_all
  then have fit: "current_pos_samples st + py_int (duration e * sr) \<le> int (length (final_track_data st))"
    using Cons.prems(4,5) e(2) by (simp add: algebra_simps)
  have de: "0 \<le> duration e" using e(2) q by simp
  from render_item_ok [OF e(1) de sr ci barnz p0 fit, of instrument]
  obtain st1 where st1: "render_item m instrument sr e st = Inr st1"
    "length (final_track_data st1) = length (final_track_data st)"
    "current_pos_samples st1 = current_pos_samples st + py_int (duration e * sr)"
    "chord_index st1 =
               (if (current_pos_samples st + py_int (duration e * sr))
                     mod py_int ((quarter_note_duration m * 4) * sr) < py_int (duration e * sr)
                then (chord_index st + 1) mod ?L else chord_index st)" by blast
  have pos1: "current_pos_samples st1 = int (Suc j) * ?D"
    using st1(3) Cons.prems(4) e(2) by (simp add: algebra_simps)
  have "chord_index st1 = (if int (Suc j) * ?D mod (4 * ?D) < ?D
                           then ((j div 4) mod ?L + 1) mod ?L else (j div 4) mod ?L)"
    using st1(4) pos1 st1(3) bar e(2) Cons.prems(3) by simp
  then have ci1: "chord_index st1 = (Suc j div 4) mod ?L"
    using bar_cross [OF D, of j] ci_step [OF L, of j] by simp
  have fit1: "(int (Suc j) + int (length evs)) * ?D \<le> int (length (final_track_data st1))"
    using Cons.prems(5) st1(2) by (simp add: algebra_simps)
  from Cons.IH [OF _ Cons.prems(2) ci1 pos1 fit1] Cons.prems(1) obtain st' where
    "render_loop m instrument sr evs st1 = Inr st'"
    "chord_index st' = ((Suc j + length evs) div 4) mod ?L"
    "current_pos_samples st' = int (Suc j + length evs) * ?D"
    "length (final_track_data st') = length (final_track_data st1)" by auto
  then show ?case using st1(1,2) by simp
qed

text \<open>
  C4: after each melody event the cursor has advanced by the event's samples, and the
  chord index is \<open>(index + 1) mod numChords\<close> exactly when the new cursor modulo the bar
  length is less than the event's samples, and is unchanged otherwise. In particular, for a
  catalog mood at 44100 Hz and a melody whose events all last one quarter note, after
  \<open>j\<close> events the chord index is \<open>(j div 4) mod numChords\<close>: it advances once every
  fourth event.
\<close>

theorem chord_index_advance:
  "(\<forall>st'. render_item m instrument sr item st = Inr st' \<longrightarrow>
       current_pos_samples st' = current_pos_samples st + py_int (duration item * sr)
     \<and> chord_index st' =
         (if current_pos_samples st' mod py_int ((quarter_note_duration m * 4) * sr)
               < py_int (duration item * sr)
          then (chord_index st + 1) mod length (chords m)
          else chord_index st))
   \<and> (map_of MOODS mood_key = Some m \<longrightarrow>
       (\<forall>e\<in>set evs. duration e = quarter_note_duration m
                      \<and> (note e = REST \<or> map_of NOTES (note e) \<noteq> None)) \<longrightarrow>
       int (length evs) * py_int (quarter_note_duration m * 44100) \<le> int (length buf) \<longrightarrow>
       (\<forall>j\<le>length evs. \<exists>st'.
           render_loop m instrument 44100 (take j evs)
             \<lparr>final_track_data = buf, current_pos_samples = 0, chord_index = 0\<rparr> = Inr st'
           \<and> chord_index st' = (j div 4) mod length (chords m)))"
proof -
  let ?q = "quarter_note_duration m"
  let ?D = "py_int (?q * 44100)"
  let ?st0 = "\<lparr>final_track_data = buf, current_pos_samples = 0, chord_index = 0\<rparr>"
  have step: "\<forall>st'. render_item m instrument sr item st = Inr st' \<longrightarrow>
       current_pos_samples st' = current_pos_samples st + py_int (duration item * sr)
     \<and> chord_index st' =
         (if current_pos_samples st' mod py_int ((quarter_note_duration m * 4) * sr)
               < py_int (duration item * sr)
          then (chord_index st + 1) mod length (chords m)
          else chord_index st)"
    by (auto simp: render_item_def Let_def split: sum.splits if_splits)
  have loop: "\<exists>st'. render_loop m instrument 44100 (take j evs) ?st0 = Inr st'
           \<and> chord_index st' = (j div 4) mod length (chords m)"
    if m: "map_of MOODS mood_key = Some m"
      and evs: "\<forall>e\<in>set evs. duration e = ?q \<and> (note e = REST \<or> map_of NOTES (note e) \<noteq> None)"
      and fit: "int (length evs) * ?D \<le> int (length buf)"
      and j: "j \<le> length evs" for j
  proof -
    have cs: "0 < ?D" "py_int ((?q * 4) * 44100) = 4 * ?D" "0 < ?q"
      using catalog_samples [OF m] by simp_all
    have ch: "chords m \<noteq> []" using moods_cases [OF m] by simp
    have e': "\<forall>e\<in>set (take j evs). duration e = ?q \<and> (note e = REST \<or> map_of NOTES (note e) \<noteq> None)"
      using evs by (auto dest: in_set_takeD)
    have "int j * ?D \<le> int (length evs) * ?D" using j cs(1) by (intro mult_right_mono) simp_all
    then have fit': "(int 0 + int (length (take j evs))) * ?D \<le> int (length (final_track_data ?st0))"
      using fit j by simp
    have "\<exists>st'. render_loop m instrument 44100 (take j evs) ?st0 = Inr st'
             \<and> chord_index st' = ((0 + length (take j evs)) div 4) mod length (chords m)
             \<and> current_pos_samples st' = int (0 + length (take j evs)) * ?D
             \<and> length (final_track_data st') = length (final_track_data ?st0)"
    proof (rule uniform_loop [OF _ cs(1) cs(2) _ e' ch _ _ fit'])
      show "(0::real) \<le> 44100" by simp
      show "0 \<le> ?q" using cs(3) by simp
      show "chord_index ?st0 = (0 div 4) mod length (chords m)" by simp
      show "current_pos_samples ?st0 = int 0 * ?D" by simp
    qed
    then show ?thesis using j by auto
  qed
  show ?thesis using step loop by blast
qed

theorem chord_index_advance_witness:
  "\<exists>m. map_of MOODS ''dreamy'' = Some m
     \<and> quarter_note_duration m = 1 \<and> length (chords m) = 2
     \<and> (\<forall>j\<le>9. \<exists>st'.
           render_loop m ''organ'' 44100
             (take j (replicate 9 \<lparr>note = ''E5'', duration = 1\<rparr>))
             \<lparr>final_track_data = replicate 400000 0, current_pos_samples = 0, chord_index = 0\<rparr>
               = Inr st'
           \<and> chord_index st' = (j div 4) mod 2)"
proof -
  obtain m where m: "map_of MOODS ''dreamy'' = Some m" "quarter_note_duration m = 1"
    "length (chords m) = 2"
    by (simp add: MOODS_def quarter_note_duration_def)
  let ?evs = "replicate 9 \<lparr>note = ''E5'', duration = 1\<rparr>"
  have e: "\<forall>e\<in>set ?evs. duration e = quarter_note_duration m
                      \<and> (note e = REST \<or> map_of NOTES (note e) \<noteq> None)"
    using m(2) by (simp add: NOTES_def)
  have fit: "int (length ?evs) * py_int (quarter_note_duration m * 44100)
               \<le> int (length (replicate 400000 (0::real)))"
    using m(2) by (simp add: py_int_def)
  from chord_index_advance [of m "''organ''" _ _ _ "''dreamy''" ?evs "replicate 400000 0"] m(1) e fit
  have "\<forall>j\<le>length ?evs. \<exists>st'.
           render_loop m ''organ'' 44100 (take j ?evs)
             \<lparr>final_track_data = replicate 400000 0, current_pos_samples = 0, chord_index = 0\<rparr> = Inr st'
           \<and> chord_index st' = (j div 4) mod length (chords m)"
    by blast
  then show ?thesis using m by (intro exI [of _ m]) simp
qed

section \<open>Binary64: the length of the buffer\<close>

lemma expo_step:
  "0 < n \<Longrightarrow> expo n x =
     (if 2 \<le> x then expo (n - 1) (x / 2) + 1 else if x < 1 then expo (n - 1) (x * 2) - 1 else 0)"
  by (cases n) simp_all

lemmas fl_eval = fl_def expo_step rne_def Let_def

lemma rne_nonneg: "0 \<le> x \<Longrightarrow> 0 \<le> rne x"
  by (auto simp: rne_def Let_def)

lemma fl_nonneg: "0 \<le> x \<Longrightarrow> 0 \<le> fl x"
  by (auto simp: fl_def Let_def sgn_if intro!: mult_nonneg_nonneg divide_nonneg_nonneg rne_nonneg)

lemma create_waveform64_Inr:
  assumes "0 \<le> py_int (fl (sample_rate * dur))"
  shows "\<exists>w. create_waveform64 frequency dur sample_rate instrument = Inr w
            \<and> length w = nat (py_int (fl (sample_rate * dur)))"
proof -
  obtain t where t: "linspace 0 dur (py_int (fl (sample_rate * dur))) False = Inr t"
    "length t = nat (py_int (fl (sample_rate * dur)))"
    using linspace_Inr [OF assms] by blast
  obtain l where l: "linspace 0 (- 5) (int (length t)) True = Inr l" "length l = length t"
    using linspace_Inr [of "int (length t)" 0 "- 5" True] by auto
  show ?thesis using t l by (simp add: create_waveform64_def)
qed

text \<open>
  C2, as the spec states it, is false: the buffer has \<^verbatim>\<open>int(sample_rate * duration)\<close>
  samples, and \<^verbatim>\<open>int\<close> truncates. At 44100 Hz a note of 0.00002 s has a product of about
  0.882, which rounds to 1, and the buffer is empty.
\<close>

theorem create_waveform64_length_round_counterexample:
  "create_waveform64 440 (fl 0.00002) 44100 ''piano'' = Inr []
   \<and> round (fl (44100 * fl 0.00002)) = (1::int)"
  by (simp add: fl_eval create_waveform64_def linspace_def py_int_def round_def)

text \<open>
  C2, amended: for every frequency \<open>f > 0\<close>, duration \<open>d > 0\<close>, sample rate \<open>r > 0\<close> and
  instrument \<open>i\<close>, the synthesizer returns a buffer whose length is the binary64 product
  of \<open>r\<close> and \<open>d\<close>, truncated. The witness is the float \<open>0.3\<close> at 44100 Hz: the rounded
  product is \<open>13230\<close> and so is the length, while the exact product of the two floats lies
  below \<open>13230\<close>.
\<close>

theorem create_waveform64_length_trunc:
  assumes "0 < f" "0 < d" "0 < r"
  shows "\<exists>w. create_waveform64 f d r i = Inr w \<and> int (length w) = \<lfloor>fl (r * d)\<rfloor>"
proof -
  have nn: "0 \<le> fl (r * d)" using assms by (intro fl_nonneg) simp
  then have p: "py_int (fl (r * d)) = \<lfloor>fl (r * d)\<rfloor>" by (simp add: py_int_def)
  have "0 \<le> py_int (fl (r * d))" using nn p by simp
  from create_waveform64_Inr [OF this, of f i] p nn show ?thesis by auto
qed

theorem create_waveform64_length_trunc_witness:
  "(0::real) < 440 \<and> 0 < fl 0.3 \<and> (0::real) < 44100
   \<and> (\<exists>w. create_waveform64 440 (fl 0.3) 44100 ''organ'' = Inr w \<and> int (length w) = 13230)
   \<and> \<lfloor>44100 * fl 0.3\<rfloor> = 13229"
proof -
  have d: "0 < fl 0.3" by (simp add: fl_eval)
  from create_waveform64_length_trunc [OF _ d, of 440 44100 "''organ''"]
  have "\<exists>w. create_waveform64 440 (fl 0.3) 44100 ''organ'' = Inr w
             \<and> int (length w) = \<lfloor>fl (44100 * fl 0.3)\<rfloor>" by simp
  moreover have "\<lfloor>fl (44100 * fl 0.3)\<rfloor> = 13230" by (simp add: fl_eval)
  moreover have "\<lfloor>44100 * fl 0.3\<rfloor> = 13229" by (simp add: fl_eval)
  ultimately show ?thesis using d by simp
qed

section \<open>Binary64: the buffer bound\<close>

lemma plan_loop64_done:
  "\<not> current_time < tds \<Longrightarrow> plan_loop64 rhythms scl tds rng k current_time acc = Some (Inr acc)"
  by (subst plan_loop64.simps) simp

lemma plan_loop64_unclipped:
  assumes "c < tds" "\<not> tds < fl (c + d)" "rhythms \<noteq> []" "scl \<noteq> []"
    "rhythms ! (rng k mod length rhythms) = d" "scl ! (rng (k + 1) mod length scl) = n"
  shows "plan_loop64 rhythms scl tds rng k c acc =
         plan_loop64 rhythms scl tds rng (k + 2) (fl (c + d)) (acc @ [\<lparr>note = n, duration = d\<rparr>])"
  using assms by (subst plan_loop64.simps) (simp add: choice_def Let_def)

text \<open>
  The run for the mood \<open>sad\<close> and the total duration \<open>2.8\<close> in which every draw picks the
  eighth note (\<open>0.4\<close> s) and the note \<open>Eb4\<close>. The rounded sums of the elapsed time are
  \<open>0.4\<close>, \<open>0.8\<close>, \<open>1.2000000000000002\<close>, \<open>1.6\<close>, \<open>2.0\<close>, \<open>2.4\<close> and \<open>2.8\<close>: the seventh sum is
  equal to the total, so the seventh event is not clipped.
\<close>

lemma plan_sad_2_8:
  assumes "map_of MOODS ''sad'' = Some m"
  shows "plan_melody64 m (fl 2.8) (\<lambda>n. 1) =
           Some (Inr (replicate 7 \<lparr>note = ''Eb4'', duration = fl 0.4\<rparr>))"
proof -
  have m: "bpm m = 75" "scale m = [''C4'', ''Eb4'', ''F4'', ''G4'', ''Ab4'', ''C5'']"
    using assms by (auto simp: MOODS_def)
  define q where "q = fl (60 / 75)"
  define h where "h = fl (q / 2)"
  define t where "t = fl (q * 1.5)"
  define T where "T = fl 2.8"
  define R where "R = [q, h, t]"
  define S where "S = scale m @ [REST]"
  define e where "e = \<lparr>note = ''Eb4'', duration = h\<rparr>"
  define rng where "rng = (\<lambda>n::nat. 1::nat)"
  define c1 where "c1 = fl (0 + h)"
  define c2 where "c2 = fl (c1 + h)"
  define c3 where "c3 = fl (c2 + h)"
  define c4 where "c4 = fl (c3 + h)"
  define c5 where "c5 = fl (c4 + h)"
  define c6 where "c6 = fl (c5 + h)"
  define c7 where "c7 = fl (c6 + h)"
  have qv: "q = 3602879701896397 / 4503599627370496" unfolding q_def by (simp add: fl_eval)
  have hv: "h = 3602879701896397 / 9007199254740992" unfolding h_def qv by (simp add: fl_eval)
  have h04: "fl 0.4 = h" unfolding hv by (simp add: fl_eval)
  have Tv: "T = 3152519739159347 / 1125899906842624" unfolding T_def by (simp add: fl_eval)
  have v1: "c1 = 3602879701896397 / 9007199254740992" unfolding c1_def hv by (simp add: fl_eval)
  have v2: "c2 = 3602879701896397 / 4503599627370496" unfolding c2_def v1 hv by (simp add: fl_eval)
  have v3: "c3 = 5404319552844596 / 4503599627370496" unfolding c3_def v2 hv by (simp add: fl_eval)
  have v4: "c4 = 7205759403792794 / 4503599627370496" unfolding c4_def v3 hv by (simp add: fl_eval)
  have v5: "c5 = 2" unfolding c5_def v4 hv by (simp add: fl_eval)
  have v6: "c6 = 10808639105689190 / 4503599627370496" unfolding c6_def v5 hv by (simp add: fl_eval)
  have v7: "c7 = 3152519739159347 / 1125899906842624" unfolding c7_def v6 hv by (simp add: fl_eval)
  have R: "R \<noteq> []" "R ! (rng k mod length R) = h" for k by (simp_all add: R_def rng_def)
  have S: "S \<noteq> []" "S ! (rng k mod length S) = ''Eb4''" for k
    by (simp_all add: S_def m rng_def REST_def)
  note st = plan_loop64_unclipped [where rhythms = R and scl = S and tds = T and rng = rng
      and d = h and n = "''Eb4''", OF _ _ R(1) S(1) R(2) S(2)]
  have lt: "0 < T" "c1 < T" "c2 < T" "c3 < T" "c4 < T" "c5 < T" "c6 < T"
    by (simp_all add: Tv v1 v2 v3 v4 v5 v6)
  have nc: "\<not> T < c1" "\<not> T < c2" "\<not> T < c3" "\<not> T < c4" "\<not> T < c5" "\<not> T < c6"
    "\<not> T < c7" "\<not> c7 < T"
    by (simp_all add: Tv v1 v2 v3 v4 v5 v6 v7)
  have "plan_loop64 R S T rng 0 0 [] = plan_loop64 R S T rng (0 + 2) c1 ([] @ [e])"
    unfolding e_def by (rule st [of 0, folded c1_def], rule lt(1), rule nc(1))
  also have "\<dots> = plan_loop64 R S T rng (0 + 2 + 2) c2 (([] @ [e]) @ [e])"
    unfolding e_def by (rule st [of c1, folded c2_def], rule lt(2), rule nc(2))
  also have "\<dots> = plan_loop64 R S T rng (0 + 2 + 2 + 2) c3 ((([] @ [e]) @ [e]) @ [e])"
    unfolding e_def by (rule st [of c2, folded c3_def], rule lt(3), rule nc(3))
  also have "\<dots> = plan_loop64 R S T rng (0 + 2 + 2 + 2 + 2) c4 (((([] @ [e]) @ [e]) @ [e]) @ [e])"
    unfolding e_def by (rule st [of c3, folded c4_def], rule lt(4), rule nc(4))
  also have "\<dots> = plan_loop64 R S T rng (0 + 2 + 2 + 2 + 2 + 2) c5 ((((([] @ [e]) @ [e]) @ [e]) @ [e]) @ [e])"
    unfolding e_def by (rule st [of c4, folded c5_def], rule lt(5), rule nc(5))
  also have "\<dots> = plan_loop64 R S T rng (0 + 2 + 2 + 2 + 2 + 2 + 2) c6 (((((([] @ [e]) @ [e]) @ [e]) @ [e]) @ [e]) @ [e])"
    unfolding e_def by (rule st [of c5, folded c6_def], rule lt(6), rule nc(6))
  also have "\<dots> = plan_loop64 R S T rng (0 + 2 + 2 + 2 + 2 + 2 + 2 + 2) c7 ((((((([] @ [e]) @ [e]) @ [e]) @ [e]) @ [e]) @ [e]) @ [e])"
    unfolding e_def by (rule st [of c6, folded c7_def], rule lt(7), rule nc(7))
  also have "\<dots> = Some (Inr ((((((([] @ [e]) @ [e]) @ [e]) @ [e]) @ [e]) @ [e]) @ [e]))"
    by (rule plan_loop64_done) (rule nc(8))
  also have "((((((([] @ [e]) @ [e]) @ [e]) @ [e]) @ [e]) @ [e]) @ [e]) = replicate 7 e"
    by (simp add: numeral_eq_Suc)
  finally have fin: "plan_loop64 R S T rng 0 0 [] = Some (Inr (replicate 7 e))" .
  have "plan_melody64 m (fl 2.8) (\<lambda>n. 1) = plan_loop64 R S T rng 0 0 []"
    by (simp add: plan_melody64_def quarter_note_duration64_def Let_def m
        R_def S_def T_def rng_def h_def q_def t_def)
  also note fin
  also have "replicate 7 e = replicate 7 \<lparr>note = ''Eb4'', duration = fl 0.4\<rparr>"
    unfolding e_def h04 ..
  finally show ?thesis .
qed

text \<open>The mixing loop in binary64 raises nothing while the events fit the buffer.\<close>

lemma add_melody64_ok:
  assumes "note item = REST \<or> map_of NOTES (note item) \<noteq> None"
    and "ds = py_int (fl (duration item * sr))" "0 \<le> ds" "0 \<le> p" "p + ds \<le> int (length buf)"
  shows "\<exists>buf'. add_melody64 instrument sr item p ds buf = Inr buf' \<and> length buf' = length buf"
proof (cases "note item = REST")
  case True
  then show ?thesis by (simp add: add_melody64_def)
next
  case False
  then obtain freq where fr: "map_of NOTES (note item) = Some freq" using assms(1) by auto
  have nn: "0 \<le> py_int (fl (sr * duration item))" using assms(2,3) by (simp add: mult.commute)
  from create_waveform64_Inr [OF nn, of freq instrument] obtain w where
    w: "create_waveform64 freq (duration item) sr instrument = Inr w" "length w = nat ds"
    using assms(2) by (auto simp: mult.commute)
  have "length (map (\<lambda>x. x * 0.45) w) = nat (p + ds - p)" using w(2) by simp
  from slice_iadd_ok [OF assms(4) _ assms(5) this] assms(3) obtain buf' where
    "slice_iadd buf p (p + ds) (map (\<lambda>x. x * 0.45) w) = Inr buf'" "length buf' = length buf"
    by auto
  then show ?thesis using False fr w(1) by (simp add: add_melody64_def)
qed

lemma add_harmony64_ok:
  assumes "ds = py_int (fl (duration item * sr))" "0 \<le> ds" "0 \<le> p"
  shows "p + ds \<le> int (length buf) \<Longrightarrow>
         \<exists>buf'. add_harmony64 sr item p ds chord buf = Inr buf' \<and> length buf' = length buf"
proof (induction chord arbitrary: buf)
  case Nil
  then show ?case by simp
next
  case (Cons n ns)
  show ?case
  proof (cases "map_of NOTES n")
    case None
    then show ?thesis using Cons.IH [OF Cons.prems] by simp
  next
    case (Some freq)
    have nn: "0 \<le> py_int (fl (sr * duration item))" using assms(1,2) by (simp add: mult.commute)
    from create_waveform64_Inr [OF nn, of freq "''organ''"] obtain w where
      w: "create_waveform64 freq (duration item) sr ''organ'' = Inr w" "length w = nat ds"
      using assms(1) by (auto simp: mult.commute)
    have "length (map (\<lambda>x. x * 0.20) w) = nat (p + ds - p)" using w(2) by simp
    from slice_iadd_ok [OF assms(3) _ Cons.prems this] assms(2) obtain buf1 where
      b1: "slice_iadd buf p (p + ds) (map (\<lambda>x. x * 0.20) w) = Inr buf1" "length buf1 = length buf"
      by auto
    from Cons.IH [of buf1] Cons.prems b1(2) obtain buf' where
      "add_harmony64 sr item p ds ns buf1 = Inr buf'" "length buf' = length buf1" by auto
    then show ?thesis using Some w(1) b1 by simp
  qed
qed

lemma render_item64_ok:
  assumes "note item = REST \<or> map_of NOTES (note item) \<noteq> None"
    and "0 \<le> duration item" "0 \<le> sr"
    and "chord_index st < length (chords m)"
    and "py_int (fl (fl (quarter_note_duration64 m * 4) * sr)) \<noteq> 0"
    and "0 \<le> current_pos_samples st"
    and "current_pos_samples st + py_int (fl (duration item * sr))
           \<le> int (length (final_track_data st))"
  shows "\<exists>st'. render_item64 m instrument sr item st = Inr st'
           \<and> length (final_track_data st') = length (final_track_data st)
           \<and> current_pos_samples st' = current_pos_samples st + py_int (fl (duration item * sr))
           \<and> chord_index st' < length (chords m)"
proof -
  define ds where "ds = py_int (fl (duration item * sr))"
  have "0 \<le> fl (duration item * sr)" using assms(2,3) by (intro fl_nonneg) simp
  then have ds0: "0 \<le> ds" unfolding ds_def by (rule py_int_nonneg)
  from add_melody64_ok [OF assms(1) ds_def ds0 assms(6), of "final_track_data st" instrument] assms(7)
  obtain buf1 where b1: "add_melody64 instrument sr item (current_pos_samples st) ds (final_track_data st) = Inr buf1"
    "length buf1 = length (final_track_data st)" by (auto simp: ds_def)
  from add_harmony64_ok [OF ds_def ds0 assms(6), of buf1 "chords m ! chord_index st"] assms(7) b1(2)
  obtain buf2 where b2: "add_harmony64 sr item (current_pos_samples st) ds (chords m ! chord_index st) buf1 = Inr buf2"
    "length buf2 = length buf1" by (auto simp: ds_def)
  have "0 < length (chords m)" using assms(4) by linarith
  then show ?thesis using b1 b2 assms(4,5)
    by (simp add: render_item64_def Let_def ds_def [symmetric])
qed

lemma render_loop64_ok:
  assumes "0 \<le> sr" "py_int (fl (fl (quarter_note_duration64 m * 4) * sr)) \<noteq> 0"
  shows "\<forall>e\<in>set evs. (note e = REST \<or> map_of NOTES (note e) \<noteq> None) \<and> 0 \<le> duration e \<Longrightarrow>
         chord_index st < length (chords m) \<Longrightarrow> 0 \<le> current_pos_samples st \<Longrightarrow>
         current_pos_samples st + (\<Sum>e\<leftarrow>evs. py_int (fl (duration e * sr)))
           \<le> int (length (final_track_data st)) \<Longrightarrow>
         \<exists>st'. render_loop64 m instrument sr evs st = Inr st'
           \<and> length (final_track_data st') = length (final_track_data st)
           \<and> current_pos_samples st' = current_pos_samples st + (\<Sum>e\<leftarrow>evs. py_int (fl (duration e * sr)))
           \<and> chord_index st' < length (chords m)"
proof (induction evs arbitrary: st)
  case Nil
  then show ?case by simp
next
  case (Cons e evs)
  have e: "note e = REST \<or> map_of NOTES (note e) \<noteq> None" "0 \<le> duration e" using Cons.prems(1) by simp_all
  have nn: "0 \<le> py_int (fl (duration x * sr))" if "0 \<le> duration x" for x
    using that assms(1) by (intro py_int_nonneg fl_nonneg) simp
  have rest0: "0 \<le> (\<Sum>e\<leftarrow>evs. py_int (fl (duration e * sr)))"
    using Cons.prems(1) by (intro sum_list_nonneg) (auto intro!: nn)
  have ds0: "0 \<le> py_int (fl (duration e * sr))" using e(2) by (rule nn)
  have fit: "current_pos_samples st + py_int (fl (duration e * sr)) \<le> int (length (final_track_data st))"
    using Cons.prems(4) rest0 by simp
  from render_item64_ok [OF e assms(1) Cons.prems(2) assms(2) Cons.prems(3) fit, of instrument]
  obtain st1 where st1: "render_item64 m instrument sr e st = Inr st1"
    "length (final_track_data st1) = length (final_track_data st)"
    "current_pos_samples st1 = current_pos_samples st + py_int (fl (duration e * sr))"
    "chord_index st1 < length (chords m)" by blast
  have p1: "0 \<le> current_pos_samples st1" using st1(3) Cons.prems(3) ds0 by simp
  have fit1: "current_pos_samples st1 + (\<Sum>e\<leftarrow>evs. py_int (fl (duration e * sr)))
           \<le> int (length (final_track_data st1))" using st1(2,3) Cons.prems(4) by simp
  from Cons.IH [OF _ st1(4) p1 fit1] Cons.prems(1) obtain st' where
    "render_loop64 m instrument sr evs st1 = Inr st'"
    "length (final_track_data st') = length (final_track_data st1)"
    "current_pos_samples st' = current_pos_samples st1 + (\<Sum>e\<leftarrow>evs. py_int (fl (duration e * sr)))"
    "chord_index st' < length (chords m)" by auto
  then show ?case using st1 by simp
qed

lemma render_loop64_append:
  "render_loop64 m instrument sr (xs @ ys) st =
     (case render_loop64 m instrument sr xs st of
        Inl e \<Rightarrow> Inl e
      | Inr st' \<Rightarrow> render_loop64 m instrument sr ys st')"
  by (induction xs arbitrary: st) (auto split: sum.splits)

text \<open>
  An event whose samples reach beyond the end of the buffer: the slice is cut at the end of
  the buffer and is shorter than the waveform, so the \<^verbatim>\<open>+=\<close> of the melody raises
  ValueError.
\<close>

lemma render_item64_overrun:
  assumes "note item \<noteq> REST" "map_of NOTES (note item) = Some freq"
    and "1 < py_int (fl (duration item * sr))"
    and "0 \<le> current_pos_samples st"
    and "current_pos_samples st \<le> int (length (final_track_data st))"
    and "int (length (final_track_data st)) < current_pos_samples st + py_int (fl (duration item * sr))"
  shows "render_item64 m instrument sr item st = Inl ValueError"
proof -
  define ds where "ds = py_int (fl (duration item * sr))"
  define p where "p = current_pos_samples st"
  define buf where "buf = final_track_data st"
  have nn: "0 \<le> py_int (fl (sr * duration item))" using assms(3) by (simp add: mult.commute)
  from create_waveform64_Inr [OF nn, of freq instrument] obtain w where
    w: "create_waveform64 freq (duration item) sr instrument = Inr w" "length w = nat ds"
    by (auto simp: mult.commute ds_def)
  have lo: "slice_index (length buf) p = nat p"
    using assms(4,5) by (auto simp: slice_index_def p_def buf_def)
  have hi: "slice_index (length buf) (p + ds) = length buf"
    using assms(3,4,6) by (auto simp: slice_index_def p_def buf_def ds_def)
  have "length (map (\<lambda>x. x * 0.45) w) \<noteq> length buf - nat p"
    using w(2) assms(3,4,5,6) by (simp add: p_def buf_def ds_def)
  moreover have "length (map (\<lambda>x. x * 0.45) w) \<noteq> 1" using w(2) assms(3) by (simp add: ds_def)
  ultimately have "slice_iadd buf p (p + ds) (map (\<lambda>x. x * 0.45) w) = Inl ValueError"
    by (simp add: slice_iadd_def Let_def lo hi)
  then have "add_melody64 instrument sr item p ds buf = Inl ValueError"
    using assms(1,2) w(1) by (simp add: add_melody64_def)
  then show ?thesis by (simp add: render_item64_def Let_def ds_def p_def buf_def)
qed

text \<open>
  C10 fails on the code. For the mood \<open>sad\<close>, the total duration \<open>2.8\<close> and the draws
  above, the plan is seven events of \<open>0.4\<close> s; each has 17640 samples, \<open>123480\<close> in all,
  the buffer has \<open>int(44100 * 2.8) = 123479\<close>, and at the seventh event the cursor plus the
  event's samples exceeds the buffer length: \<^verbatim>\<open>generate_music\<close> raises ValueError.
\<close>

theorem overrun_at_2_8:
  "(\<exists>m. map_of MOODS ''sad'' = Some m
        \<and> plan_melody64 m (fl 2.8) (\<lambda>n. 1)
            = Some (Inr (replicate 7 \<lparr>note = ''Eb4'', duration = fl 0.4\<rparr>)))
   \<and> py_int (fl (fl 0.4 * 44100)) = 17640
   \<and> py_int (fl (44100 * fl 2.8)) = 123479
   \<and> generate_music64 ''sad'' ''piano'' (fl 2.8) (\<lambda>n. 1) = Some (Inl ValueError)"
proof -
  obtain m where m: "map_of MOODS ''sad'' = Some m" "bpm m = 75" "chords m \<noteq> []"
    by (simp add: MOODS_def)
  define h where "h = fl 0.4"
  define T where "T = fl 2.8"
  let ?e = "\<lparr>note = ''Eb4'', duration = h\<rparr>"
  let ?st0 = "\<lparr>final_track_data = replicate (nat 123479) (0::real),
               current_pos_samples = 0, chord_index = 0\<rparr>"
  have plan: "plan_melody64 m T (\<lambda>n. 1) = Some (Inr (replicate 7 ?e))"
    unfolding h_def T_def by (rule plan_sad_2_8 [OF m(1)])
  have ds: "py_int (fl (h * 44100)) = 17640" unfolding h_def by (simp add: fl_eval py_int_def)
  have len: "py_int (fl (44100 * T)) = 123479" unfolding T_def by (simp add: fl_eval py_int_def)
  have bar: "py_int (fl (fl (quarter_note_duration64 m * 4) * 44100)) \<noteq> 0"
    by (simp add: quarter_note_duration64_def m(2) fl_eval py_int_def)
  have d0: "0 \<le> h" unfolding h_def by (intro fl_nonneg) simp
  have res: "map_of NOTES ''Eb4'' = Some 311.13" by (simp add: NOTES_def)
  have "\<exists>st'. render_loop64 m ''piano'' 44100 (replicate 6 ?e) ?st0 = Inr st'
           \<and> length (final_track_data st') = length (final_track_data ?st0)
           \<and> current_pos_samples st' = current_pos_samples ?st0
                + (\<Sum>e\<leftarrow>replicate 6 ?e. py_int (fl (duration e * 44100)))
           \<and> chord_index st' < length (chords m)"
  proof (rule render_loop64_ok [OF _ bar])
    show "(0::real) \<le> 44100" by simp
    show "\<forall>e\<in>set (replicate 6 ?e). (note e = REST \<or> map_of NOTES (note e) \<noteq> None) \<and> 0 \<le> duration e"
      using d0 res by simp
    show "chord_index ?st0 < length (chords m)" using m(3) by simp
    show "0 \<le> current_pos_samples ?st0" by simp
    show "current_pos_samples ?st0 + (\<Sum>e\<leftarrow>replicate 6 ?e. py_int (fl (duration e * 44100)))
            \<le> int (length (final_track_data ?st0))"
      by (simp add: sum_list_replicate ds)
  qed
  then obtain st6 where st6: "render_loop64 m ''piano'' 44100 (replicate 6 ?e) ?st0 = Inr st6"
    "length (final_track_data st6) = 123479" "current_pos_samples st6 = 105840"
    by (auto simp: sum_list_replicate ds)
  have "render_item64 m ''piano'' 44100 ?e st6 = Inl ValueError"
  proof (rule render_item64_overrun [where freq = "311.13"])
    show "note ?e \<noteq> REST" by (simp add: REST_def)
    show "map_of NOTES (note ?e) = Some 311.13" using res by simp
    show "1 < py_int (fl (duration ?e * 44100))" using ds by simp
    show "0 \<le> current_pos_samples st6" using st6(3) by simp
    show "current_pos_samples st6 \<le> int (length (final_track_data st6))" using st6(2,3) by simp
    show "int (length (final_track_data st6)) < current_pos_samples st6 + py_int (fl (duration ?e * 44100))"
      using st6(2,3) ds by simp
  qed
  then have "render_loop64 m ''piano'' 44100 (replicate 6 ?e @ [?e]) ?st0 = Inl ValueError"
    using st6(1) by (simp add: render_loop64_append)
  moreover have "replicate 6 ?e @ [?e] = replicate 7 ?e"
    by (simp add: numeral_eq_Suc replicate_append_same)
  ultimately have loop: "render_loop64 m ''piano'' 44100 (replicate 7 ?e) ?st0 = Inl ValueError"
    by simp
  have "render64 m ''piano'' 44100 T (replicate 7 ?e) = Inl ValueError"
    using loop len by (simp add: render64_def np_zeros_def)
  then have "generate_music64 ''sad'' ''piano'' T (\<lambda>n. 1) = Some (Inl ValueError)"
    using m(1) plan by (simp add: generate_music64_def)
  with m(1) plan ds len have
    "(\<exists>m. map_of MOODS ''sad'' = Some m
        \<and> plan_melody64 m T (\<lambda>n. 1)
            = Some (Inr (replicate 7 \<lparr>note = ''Eb4'', duration = h\<rparr>)))
   \<and> py_int (fl (h * 44100)) = 17640
   \<and> py_int (fl (44100 * T)) = 123479
   \<and> generate_music64 ''sad'' ''piano'' T (\<lambda>n. 1) = Some (Inl ValueError)"
    by blast
  then show ?thesis unfolding h_def T_def .
qed

end
